theory Spec2Isabelle
  imports Complex_Main "HOL-Library.Log_Nat"
begin

section \<open>Turbo Racer: the simulation core of \<^verbatim>\<open>src/App.tsx\<close>\<close>

text \<open>
  The component \<^verbatim>\<open>App\<close> keeps the simulation in React refs and a few React state
  variables. The model below is a shallow embedding of the handlers that read and write
  them: \<^verbatim>\<open>movePlayer\<close>, \<^verbatim>\<open>startGame\<close>, \<^verbatim>\<open>gameOver\<close>, \<^verbatim>\<open>gameLoop\<close> and the small
  click handlers.

  Conventions of the embedding:
  \<^item> a JavaScript \<^verbatim>\<open>number\<close> that holds a coordinate, a speed or a time is a \<^typ>\<open>rat\<close>;
    a \<^verbatim>\<open>number\<close> that only ever holds an integer (score, lane, upgrade level) is an
    \<^typ>\<open>int\<close>;
  \<^item> the speed is computed as the source computes it, in IEEE-754 binary64: every
    literal, product, difference and sum of \<^verbatim>\<open>startGame\<close> and of the speed update of
    \<^verbatim>\<open>gameLoop\<close> is rounded by \<open>binary64\<close> (round to nearest, ties to even, with
    subnormals; no value of the simulation comes near the overflow threshold, which is
    not modelled). Positions and the collision test are read in exact arithmetic: what
    is stated about them relates the state after a frame to the state before it and
    does not depend on how a sum is rounded;
  \<^item> the refs and state variables of the component are the fields of one record,
    passed through every handler and returned updated;
  \<^item> \<^verbatim>\<open>Math.random()\<close> is an explicit argument of \<^verbatim>\<open>gameLoop\<close>: a function
    \<open>draws\<close> whose value at \<open>k\<close> is what the \<open>k\<close>-th call made during that
    invocation returns;
  \<^item> the value stored in \<^verbatim>\<open>localStorage\<close> under \<^verbatim>\<open>'turbo-racer-highscore'\<close> is an
    \<^typ>\<open>int option\<close>: \<open>None\<close> when the key is absent, \<open>Some n\<close> when it holds the
    decimal string of \<open>n\<close>;
  \<^item> \<^verbatim>\<open>gameLoop\<close> and \<^verbatim>\<open>gameOver\<close> read the state variables \<^verbatim>\<open>customization\<close> and
    \<^verbatim>\<open>highScore\<close> through the closure of the render in which the start button was
    clicked; neither variable can change between that click and the end of the session
    (the garage is only reachable from the start screen, and \<^verbatim>\<open>setHighScore\<close> is only
    called at mount and by \<^verbatim>\<open>gameOver\<close>), so the model reads the current fields;
  \<^item> the sound manager, the canvas drawing and the animation-frame handle have no
    effect on the fields modelled here and are left out.
\<close>

subsection \<open>Constants\<close>

definition CANVAS_WIDTH :: rat where "CANVAS_WIDTH = 400"
definition CANVAS_HEIGHT :: rat where "CANVAS_HEIGHT = 600"
definition LANE_WIDTH :: rat where "LANE_WIDTH = CANVAS_WIDTH / 3"
definition PLAYER_WIDTH :: rat where "PLAYER_WIDTH = 50"
definition PLAYER_HEIGHT :: rat where "PLAYER_HEIGHT = 80"
definition OBSTACLE_WIDTH :: rat where "OBSTACLE_WIDTH = 50"
definition OBSTACLE_HEIGHT :: rat where "OBSTACLE_HEIGHT = 80"
definition INITIAL_SPEED :: rat where "INITIAL_SPEED = 8"

subsection \<open>Numbers\<close>

text \<open>
  The arithmetic of the source is IEEE-754 binary64; the model applies it where the
  speed is computed. \<open>roundHalfEven\<close> rounds to the nearest
  integer, ties to even; \<open>binade x\<close> is the exponent \<open>e\<close> with \<open>2^e \<le> x < 2^(e+1)\<close> of
  a positive \<open>x\<close>; \<open>ulp x\<close> is the spacing of binary64 values around \<open>x\<close> (53 significant
  bits, exponent not below \<open>-1022\<close>); \<open>binary64 x\<close> is the binary64 value nearest to
  \<open>x\<close>: the value a literal denotes, and the result of an operation whose exact result
  is \<open>x\<close>.
\<close>

definition roundHalfEven :: "rat \<Rightarrow> int" where
  "roundHalfEven q =
    (let f = \<lfloor>q\<rfloor>; r = q - of_int f
     in if r < 1 / 2 then f else if 1 / 2 < r then f + 1 else if even f then f else f + 1)"

definition binade :: "rat \<Rightarrow> int" where
  "binade x =
    (let d = bitlen (fst (quotient_of x)) - bitlen (snd (quotient_of x))
     in if 2 powi d \<le> x then d else d - 1)"

definition ulp :: "rat \<Rightarrow> rat" where
  "ulp x = 2 powi (max (binade x) (- 1022) - 52)"

definition roundPositive :: "rat \<Rightarrow> rat" where
  "roundPositive x = of_int (roundHalfEven (x / ulp x)) * ulp x"

definition binary64 :: "rat \<Rightarrow> rat" where
  "binary64 x = (if x < 0 then - roundPositive (- x) else roundPositive x)"

subsection \<open>Types\<close>

datatype landmarkType = tower | ruin | felucca | pyramid | building | temple

datatype landmarkSide = left | right

text \<open>The \<^verbatim>\<open>id\<close> of a landmark is \<^verbatim>\<open>Math.random().toString()\<close>; the model keeps the draw.\<close>

record Landmark =
  lm_id :: rat
  lm_x :: rat
  lm_y :: rat
  lm_type :: "landmarkType option"
  lm_side :: landmarkSide

text \<open>
  Of a \<^verbatim>\<open>Track\<close> the simulation reads the fields below; the remaining ones (name,
  description, background and road colours, image) are read by the renderer only.
\<close>

record Track =
  track_id :: string
  obstacleColor :: string
  initialSpeed :: rat
  speedIncrement :: rat
  landmarkTypes :: "landmarkType list"

datatype carModel = classic | bmw

datatype carDecal = none | stripes | flames | star

record Upgrades =
  engine :: int
  tires :: int

record CarCustomization =
  model :: carModel
  color :: string
  decal :: carDecal
  upgrades :: Upgrades

definition TRACKS :: "Track list" where
  "TRACKS =
    [\<lparr>track_id = ''city'', obstacleColor = ''#ef4444'', initialSpeed = 8,
      speedIncrement = binary64 (2 / 1000), landmarkTypes = [tower, building]\<rparr>,
     \<lparr>track_id = ''desert'', obstacleColor = ''#991b1b'', initialSpeed = 11,
      speedIncrement = binary64 (3 / 1000), landmarkTypes = [ruin, pyramid]\<rparr>,
     \<lparr>track_id = ''neon'', obstacleColor = ''#f472b6'', initialSpeed = 14,
      speedIncrement = binary64 (4 / 1000), landmarkTypes = [felucca, temple]\<rparr>]"

datatype obstacleType = pottery | stall | chariot

text \<open>\<^verbatim>\<open>type\<close> is an optional field of \<^verbatim>\<open>GameObject\<close>: the player has none.\<close>

record GameObject =
  obj_x :: rat
  obj_y :: rat
  obj_width :: rat
  obj_height :: rat
  obj_color :: string
  obj_lane :: int
  obj_type :: "obstacleType option"

datatype phase = START | PLAYING | GAMEOVER | GARAGE

record App =
  gameState :: phase
  selectedTrack :: Track
  customization :: CarCustomization
  score :: int
  highScore :: int
  speed :: rat
  gameStateRef :: phase
  speedRef :: rat
  scoreRef :: int
  playerRef :: GameObject
  obstaclesRef :: "GameObject list"
  landmarksRef :: "Landmark list"
  roadOffsetRef :: rat
  lastTimeRef :: rat
  selectedTrackRef :: Track
  localStorage :: "int option"

subsection \<open>JavaScript primitives\<close>

text \<open>\<^verbatim>\<open>a % n\<close> on numbers: the remainder has the sign of the dividend.\<close>

definition js_rem :: "rat \<Rightarrow> rat \<Rightarrow> rat" where
  "js_rem a n = a - n * of_int (if a / n < 0 then \<lceil>a / n\<rceil> else \<lfloor>a / n\<rfloor>)"

text \<open>\<^verbatim>\<open>xs[i]\<close>: \<^verbatim>\<open>undefined\<close> outside the array.\<close>

definition js_index :: "'a list \<Rightarrow> int \<Rightarrow> 'a option" where
  "js_index xs i = (if 0 \<le> i \<and> i < int (length xs) then Some (xs ! nat i) else None)"

subsection \<open>Mounting the component\<close>

definition initialApp :: "int option \<Rightarrow> App" where
  "initialApp saved =
    \<lparr>gameState = START,
     selectedTrack = hd TRACKS,
     customization = \<lparr>model = classic, color = ''#3b82f6'', decal = none,
                      upgrades = \<lparr>engine = 0, tires = 0\<rparr>\<rparr>,
     score = 0,
     highScore = 0,
     speed = INITIAL_SPEED,
     gameStateRef = START,
     speedRef = INITIAL_SPEED,
     scoreRef = 0,
     playerRef = \<lparr>obj_x = LANE_WIDTH + (LANE_WIDTH - PLAYER_WIDTH) / 2,
                  obj_y = CANVAS_HEIGHT - PLAYER_HEIGHT - 20,
                  obj_width = PLAYER_WIDTH, obj_height = PLAYER_HEIGHT,
                  obj_color = ''#3b82f6'', obj_lane = 1, obj_type = None\<rparr>,
     obstaclesRef = [],
     landmarksRef = [],
     roadOffsetRef = 0,
     lastTimeRef = 0,
     selectedTrackRef = hd TRACKS,
     localStorage = saved\<rparr>"

text \<open>The effect that loads the high score once, after the first render.\<close>

definition loadHighScore :: "App \<Rightarrow> App" where
  "loadHighScore s =
    (case localStorage s of None \<Rightarrow> s | Some n \<Rightarrow> s\<lparr>highScore := n\<rparr>)"

definition mount :: "int option \<Rightarrow> App" where
  "mount saved = loadHighScore (initialApp saved)"

subsection \<open>Input\<close>

definition movePlayer :: "int \<Rightarrow> App \<Rightarrow> App" where
  "movePlayer dir s =
    (let newLane = max 0 (min 2 (obj_lane (playerRef s) + dir))
     in s\<lparr>playerRef := (playerRef s)
            \<lparr>obj_lane := newLane,
             obj_x := of_int newLane * LANE_WIDTH + (LANE_WIDTH - PLAYER_WIDTH) / 2\<rparr>\<rparr>)"

definition handleKeyDown :: "string \<Rightarrow> App \<Rightarrow> App" where
  "handleKeyDown key s =
    (if gameState s \<noteq> PLAYING then s
     else if key = ''ArrowLeft'' \<or> key = ''a'' then movePlayer (- 1) s
     else if key = ''ArrowRight'' \<or> key = ''d'' then movePlayer 1 s
     else s)"

subsection \<open>Starting and ending a session\<close>

text \<open>The argument \<open>now\<close> is the value of \<^verbatim>\<open>performance.now()\<close>.\<close>

definition startGame :: "rat \<Rightarrow> App \<Rightarrow> App" where
  "startGame now s =
    (let track = selectedTrackRef s;
         engineBonus = binary64 (of_int (engine (upgrades (customization s))) * 1);
         v = binary64 (initialSpeed track + engineBonus)
     in s\<lparr>gameStateRef := PLAYING,
          gameState := PLAYING,
          score := 0,
          scoreRef := 0,
          speedRef := v,
          speed := v,
          obstaclesRef := [],
          landmarksRef := [],
          playerRef := (playerRef s)
            \<lparr>obj_lane := 1,
             obj_x := LANE_WIDTH + (LANE_WIDTH - PLAYER_WIDTH) / 2,
             obj_color := color (customization s)\<rparr>,
          lastTimeRef := now\<rparr>)"

definition gameOver :: "App \<Rightarrow> App" where
  "gameOver s =
    (if gameStateRef s \<noteq> PLAYING then s
     else
       let s1 = s\<lparr>gameStateRef := GAMEOVER, gameState := GAMEOVER\<rparr>;
           finalScore = scoreRef s1
       in if finalScore > highScore s1
          then s1\<lparr>highScore := finalScore, localStorage := Some finalScore\<rparr>
          else s1)"

subsection \<open>The frame callback\<close>

text \<open>Move obstacles / move landmarks: the two \<^verbatim>\<open>forEach\<close> loops.\<close>

definition moveObstacles :: "rat \<Rightarrow> GameObject list \<Rightarrow> GameObject list" where
  "moveObstacles currentSpeed obs = map (\<lambda>ob. ob\<lparr>obj_y := obj_y ob + currentSpeed\<rparr>) obs"

definition moveLandmarks :: "rat \<Rightarrow> Landmark list \<Rightarrow> Landmark list" where
  "moveLandmarks currentSpeed lms = map (\<lambda>lm. lm\<lparr>lm_y := lm_y lm + currentSpeed\<rparr>) lms"

text \<open>Remove off-screen obstacles / landmarks: the two \<^verbatim>\<open>filter\<close> calls.\<close>

definition removeOffscreenObstacles :: "GameObject list \<Rightarrow> GameObject list" where
  "removeOffscreenObstacles obs = filter (\<lambda>ob. obj_y ob < CANVAS_HEIGHT) obs"

definition removeOffscreenLandmarks :: "Landmark list \<Rightarrow> Landmark list" where
  "removeOffscreenLandmarks lms = filter (\<lambda>lm. lm_y lm < CANVAS_HEIGHT) lms"

text \<open>
  Spawn new obstacles. The object pushed, from the draw for the lane and the draw for
  the type.
\<close>

definition newObstacle :: "Track \<Rightarrow> rat \<Rightarrow> rat \<Rightarrow> GameObject" where
  "newObstacle track rLane rType =
    (let lane = \<lfloor>rLane * 3\<rfloor>;
         types = [pottery, stall, chariot];
         type = js_index types \<lfloor>rType * of_nat (length types)\<rfloor>
     in \<lparr>obj_x = of_int lane * LANE_WIDTH + (LANE_WIDTH - OBSTACLE_WIDTH) / 2,
         obj_y = - OBSTACLE_HEIGHT,
         obj_width = OBSTACLE_WIDTH,
         obj_height = OBSTACLE_HEIGHT,
         obj_color = obstacleColor track,
         obj_lane = lane,
         obj_type = type\<rparr>)"

text \<open>
  The spawn step takes the draws of this invocation and the number \<open>k\<close> of draws
  already made, and returns the new array with the number of draws made so far.
  \<^verbatim>\<open>||\<close> and \<^verbatim>\<open>&&\<close> short-circuit: \<^verbatim>\<open>Math.random()\<close> is only called when the array is
  not empty and its last element is below the clearance line.
\<close>

definition spawnObstacles ::
  "Track \<Rightarrow> (nat \<Rightarrow> rat) \<Rightarrow> nat \<Rightarrow> GameObject list \<Rightarrow> GameObject list \<times> nat" where
  "spawnObstacles track draws k obs =
    (if length obs = 0 then (obs @ [newObstacle track (draws k) (draws (k + 1))], k + 2)
     else if obj_y (last obs) > 200 then
       (if draws k < 2 / 100
        then (obs @ [newObstacle track (draws (k + 1)) (draws (k + 2))], k + 3)
        else (obs, k + 1))
     else (obs, k))"

definition newLandmark :: "Track \<Rightarrow> rat \<Rightarrow> rat \<Rightarrow> rat \<Rightarrow> Landmark" where
  "newLandmark track rSide rType rId =
    (let side = (if rSide > 1 / 2 then left else right);
         type = js_index (landmarkTypes track)
                  \<lfloor>rType * of_nat (length (landmarkTypes track))\<rfloor>
     in \<lparr>lm_id = rId,
         lm_x = (if side = left then 20 else CANVAS_WIDTH - 80),
         lm_y = - 200,
         lm_type = type,
         lm_side = side\<rparr>)"

definition spawnLandmarks ::
  "Track \<Rightarrow> (nat \<Rightarrow> rat) \<Rightarrow> nat \<Rightarrow> Landmark list \<Rightarrow> Landmark list \<times> nat" where
  "spawnLandmarks track draws k lms =
    (if length lms = 0
     then (lms @ [newLandmark track (draws k) (draws (k + 1)) (draws (k + 2))], k + 3)
     else if lm_y (last lms) > 400 then
       (if draws k < 1 / 100
        then (lms @ [newLandmark track (draws (k + 1)) (draws (k + 2)) (draws (k + 3))],
              k + 4)
        else (lms, k + 1))
     else (lms, k))"

text \<open>Collision detection: the condition of the \<^verbatim>\<open>if\<close> inside the loop.\<close>

definition collides :: "GameObject \<Rightarrow> GameObject \<Rightarrow> bool" where
  "collides player obs \<longleftrightarrow>
     obj_x player < obj_x obs + obj_width obs \<and>
     obj_x player + obj_width player > obj_x obs \<and>
     obj_y player < obj_y obs + obj_height obs \<and>
     obj_y player + obj_height player > obj_y obs"

text \<open>
  The \<^verbatim>\<open>for ... of\<close> loop over the obstacles: \<open>True\<close> when the loop leaves through
  \<^verbatim>\<open>gameOver(); return;\<close>, \<open>False\<close> when it runs to the end of the array.
\<close>

fun collisionLoop :: "GameObject \<Rightarrow> GameObject list \<Rightarrow> bool" where
  "collisionLoop player [] = False"
| "collisionLoop player (obs # rest) =
     (if collides player obs then True else collisionLoop player rest)"

definition effectiveIncrement :: "Track \<Rightarrow> CarCustomization \<Rightarrow> rat" where
  "effectiveIncrement track cust =
    (let tireBonus = binary64 (of_int (tires (upgrades cust)) * binary64 (2 / 10000))
     in max (binary64 (1 / 10000)) (binary64 (speedIncrement track - tireBonus)))"

definition gameLoop :: "rat \<Rightarrow> (nat \<Rightarrow> rat) \<Rightarrow> App \<Rightarrow> App" where
  "gameLoop time draws s =
    (if gameStateRef s \<noteq> PLAYING then s
     else
       let track = selectedTrackRef s;
           currentSpeed = binary64 (speedRef s + effectiveIncrement track (customization s));
           (obs, k) = spawnObstacles track draws 0
                        (removeOffscreenObstacles (moveObstacles currentSpeed (obstaclesRef s)));
           (lms, k') = spawnLandmarks track draws k
                        (removeOffscreenLandmarks (moveLandmarks currentSpeed (landmarksRef s)));
           s1 = s\<lparr>lastTimeRef := time,
                  speedRef := currentSpeed,
                  roadOffsetRef := js_rem (roadOffsetRef s + currentSpeed) 100,
                  obstaclesRef := obs,
                  landmarksRef := lms\<rparr>
       in if collisionLoop (playerRef s1) (obstaclesRef s1) then gameOver s1
          else
            let s2 = s1\<lparr>scoreRef := scoreRef s1 + 1\<rparr>
            in if scoreRef s2 mod 10 = 0
               then s2\<lparr>score := scoreRef s2, speed := currentSpeed\<rparr>
               else s2)"

subsection \<open>The click handlers\<close>

text \<open>
  \<^verbatim>\<open>handleTrackSelect\<close> sets the state variable; the effect that follows the render
  copies it into \<^verbatim>\<open>selectedTrackRef\<close> before any other event is handled.
\<close>

definition handleTrackSelect :: "Track \<Rightarrow> App \<Rightarrow> App" where
  "handleTrackSelect track s = s\<lparr>selectedTrack := track, selectedTrackRef := track\<rparr>"

definition handleGarageClick :: "App \<Rightarrow> App" where
  "handleGarageClick s = s\<lparr>gameState := GARAGE\<rparr>"

definition handleBackToStart :: "App \<Rightarrow> App" where
  "handleBackToStart s = s\<lparr>gameState := START\<rparr>"

text \<open>A \<^verbatim>\<open>Partial<CarCustomization>\<close>: each field present or not.\<close>

record CustomizationUpdate =
  upd_model :: "carModel option"
  upd_color :: "string option"
  upd_decal :: "carDecal option"
  upd_upgrades :: "Upgrades option"

definition handleCustomizationChange :: "CustomizationUpdate \<Rightarrow> App \<Rightarrow> App" where
  "handleCustomizationChange update s =
    (let prev = customization s
     in s\<lparr>customization :=
         \<lparr>model = (case upd_model update of None \<Rightarrow> model prev | Some m \<Rightarrow> m),
          color = (case upd_color update of None \<Rightarrow> color prev | Some c \<Rightarrow> c),
          decal = (case upd_decal update of None \<Rightarrow> decal prev | Some d \<Rightarrow> d),
          upgrades = (case upd_upgrades update of None \<Rightarrow> upgrades prev | Some u \<Rightarrow> u)\<rparr>\<rparr>)"

subsection \<open>Events and reachable states\<close>

datatype event =
    KeyDown string
  | StartClick rat
  | Frame rat "nat \<Rightarrow> rat"
  | TrackSelect Track
  | GarageClick
  | BackToStart
  | CustomizationChange CustomizationUpdate

fun handle :: "event \<Rightarrow> App \<Rightarrow> App" where
  "handle (KeyDown key) s = handleKeyDown key s"
| "handle (StartClick now) s = startGame now s"
| "handle (Frame time draws) s = gameLoop time draws s"
| "handle (TrackSelect track) s = handleTrackSelect track s"
| "handle GarageClick s = handleGarageClick s"
| "handle BackToStart s = handleBackToStart s"
| "handle (CustomizationChange update) s = handleCustomizationChange update s"

text \<open>The state after a sequence of events, oldest first.\<close>

fun run :: "event list \<Rightarrow> App \<Rightarrow> App" where
  "run [] s = s"
| "run (e # es) s = run es (handle e s)"

subsection \<open>Names for the intermediate values of one frame\<close>

text \<open>
  \<open>tickSpeed\<close> is \<^verbatim>\<open>currentSpeed\<close>; \<open>tickObstacles\<close> and \<open>tickLandmarks\<close> are the two
  arrays as they stand when the collision loop starts, each with the number of draws
  made so far.
\<close>

definition tickSpeed :: "App \<Rightarrow> rat" where
  "tickSpeed s =
     binary64 (speedRef s + effectiveIncrement (selectedTrackRef s) (customization s))"

definition tickObstacles :: "(nat \<Rightarrow> rat) \<Rightarrow> App \<Rightarrow> GameObject list \<times> nat" where
  "tickObstacles draws s =
     spawnObstacles (selectedTrackRef s) draws 0
       (removeOffscreenObstacles (moveObstacles (tickSpeed s) (obstaclesRef s)))"

definition tickLandmarks :: "(nat \<Rightarrow> rat) \<Rightarrow> App \<Rightarrow> Landmark list \<times> nat" where
  "tickLandmarks draws s =
     spawnLandmarks (selectedTrackRef s) draws (snd (tickObstacles draws s))
       (removeOffscreenLandmarks (moveLandmarks (tickSpeed s) (landmarksRef s)))"

text \<open>
  The best score a stored value stands for: \<^verbatim>\<open>useState(0)\<close> when the key is absent,
  the stored number otherwise (what \<open>loadHighScore\<close> leaves in \<open>highScore\<close>).
\<close>

definition persistedBest :: "int option \<Rightarrow> int" where
  "persistedBest saved = (case saved of None \<Rightarrow> 0 | Some n \<Rightarrow> n)"

text \<open>The state variable \<open>highScore\<close> agrees with the store.\<close>

definition bestInSync :: "App \<Rightarrow> bool" where
  "bestInSync s \<longleftrightarrow> highScore s = persistedBest (localStorage s)"

text \<open>The lower edge of an object's rectangle, as the collision test computes it.\<close>

definition bottomEdge :: "GameObject \<Rightarrow> rat" where
  "bottomEdge ob = obj_y ob + obj_height ob"

subsection \<open>Concrete inputs\<close>

text \<open>A source of draws that always returns one half: no probabilistic spawn succeeds.\<close>

definition halfDraws :: "nat \<Rightarrow> rat" where
  "halfDraws k = 1 / 2"

text \<open>A fresh session on the first track, with nothing stored.\<close>

definition playingState :: App where
  "playingState = startGame 0 (mount None)"

text \<open>An obstacle of the given lane at the given height.\<close>

definition obstacleAt :: "int \<Rightarrow> rat \<Rightarrow> GameObject" where
  "obstacleAt lane y = (newObstacle (hd TRACKS) (of_int lane / 3) 0)\<lparr>obj_y := y\<rparr>"

text \<open>A session with an obstacle in the player's lane, level with the player.\<close>

definition crashState :: App where
  "crashState = playingState\<lparr>obstaclesRef := [obstacleAt 1 450]\<rparr>"

text \<open>
  A session whose next frame runs at speed 10, with two obstacles in the left lane:
  the frame moves the first to \<open>y = 600\<close> and the second to \<open>y = 550\<close>.
\<close>

definition edgeState :: App where
  "edgeState = playingState
     \<lparr>speedRef := binary64 (9998 / 1000), obstaclesRef := [obstacleAt 0 590, obstacleAt 0 540]\<rparr>"

text \<open>
  Sessions with score 5 and score 3 over a stored best of 3, each with the obstacle of
  \<open>crashState\<close> in front of the player: the next frame ends them.
\<close>

definition recordState :: App where
  "recordState = crashState\<lparr>scoreRef := 5, highScore := 3, localStorage := Some 3\<rparr>"

definition tieState :: App where
  "tieState = crashState\<lparr>scoreRef := 3, highScore := 3, localStorage := Some 3\<rparr>"


section \<open>Rounding to binary64\<close>

lemma two_powi_pos: "0 < (2::rat) powi n"
  by simp

lemma two_powi_nat: "0 \<le> n \<Longrightarrow> (2::rat) powi n = 2 ^ nat n"
  by (simp add: power_int_def)

lemma two_powi_mono: "m \<le> n \<Longrightarrow> (2::rat) powi m \<le> 2 powi n"
  by (rule power_int_increasing) simp_all

lemma two_powi_strict_mono: "m < n \<Longrightarrow> (2::rat) powi m < 2 powi n"
  by (rule power_int_strict_increasing) simp_all

lemma two_powi_less_imp: "(2::rat) powi m < 2 powi n \<Longrightarrow> m < n"
  using two_powi_mono [of n m] by (cases "m < n") auto

lemma two_powi_diff: "(2::rat) powi m / 2 powi n = 2 powi (m - n)"
  by (simp add: power_int_diff)

lemma bitlen_rat_bounds:
  assumes "0 < a"
  shows "(2::rat) powi (bitlen a - 1) \<le> of_int a" "of_int a < (2::rat) powi bitlen a"
proof -
  from assms have l: "1 \<le> bitlen a"
    using bitlen_eq_zero_iff [of a] bitlen_nonneg [of a] by linarith
  from bitlen_bounds [OF assms] have "2 ^ nat (bitlen a - 1) \<le> a" "a < 2 ^ nat (bitlen a)"
    by simp_all
  then have "(of_int (2 ^ nat (bitlen a - 1)) :: rat) \<le> of_int a"
    "(of_int a :: rat) < of_int (2 ^ nat (bitlen a))"
    by (simp_all only: of_int_le_iff of_int_less_iff)
  with l show "(2::rat) powi (bitlen a - 1) \<le> of_int a" "of_int a < (2::rat) powi bitlen a"
    by (simp_all add: two_powi_nat)
qed

lemma binade_bounds:
  assumes "0 < x"
  shows "2 powi binade x \<le> x" "x < 2 powi (binade x + 1)"
proof -
  obtain a b where q: "quotient_of x = (a, b)"
    by (cases "quotient_of x")
  then have b: "0 < b" and x: "x = of_int a / of_int b"
    by (simp_all add: quotient_of_denom_pos quotient_of_div)
  with assms have a: "0 < a"
    by (simp add: zero_less_divide_iff)
  let ?d = "bitlen a - bitlen b"
  note A = bitlen_rat_bounds [OF a] and B = bitlen_rat_bounds [OF b]
  have "x < 2 powi bitlen a / 2 powi (bitlen b - 1)"
    unfolding x using a A(2) B(1) by (intro frac_less) simp_all
  also have "\<dots> = 2 powi (?d + 1)"
    unfolding two_powi_diff by (rule arg_cong [where f = "power_int 2"]) simp
  finally have up: "x < 2 powi (?d + 1)" .
  have "2 powi (bitlen a - 1) / 2 powi bitlen b < x"
    unfolding x using B(2) A(1) b by (intro frac_less2) simp_all
  also have "2 powi (bitlen a - 1) / 2 powi bitlen b = (2::rat) powi (?d - 1)"
    unfolding two_powi_diff by (rule arg_cong [where f = "power_int 2"]) simp
  finally have low: "2 powi (?d - 1) < x" .
  have bin: "binade x = (if 2 powi ?d \<le> x then ?d else ?d - 1)"
    by (simp add: binade_def q)
  show "2 powi binade x \<le> x"
    using low by (simp add: bin)
  show "x < 2 powi (binade x + 1)"
    using up by (simp add: bin)
qed

lemma binade_unique:
  assumes "2 powi e \<le> x" "x < 2 powi (e + 1)"
  shows "binade x = e"
proof -
  have pos: "0 < x"
    using assms(1) two_powi_pos [of e] by linarith
  note b = binade_bounds [OF pos]
  have "\<not> e < binade x"
  proof
    assume "e < binade x"
    then have "(2::rat) powi (e + 1) \<le> 2 powi binade x"
      by (intro two_powi_mono) simp
    with b(1) assms(2) show False by linarith
  qed
  moreover have "\<not> binade x < e"
  proof
    assume "binade x < e"
    then have "(2::rat) powi (binade x + 1) \<le> 2 powi e"
      by (intro two_powi_mono) simp
    with b(2) assms(1) show False by linarith
  qed
  ultimately show ?thesis by linarith
qed

lemma binade_mono:
  assumes "0 < x" "x \<le> y"
  shows "binade x \<le> binade y"
proof (rule ccontr)
  assume "\<not> binade x \<le> binade y"
  then have "(2::rat) powi (binade y + 1) \<le> 2 powi binade x"
    by (intro two_powi_mono) simp
  with binade_bounds(1) [OF assms(1)] binade_bounds(2) [of y] assms show False
    by linarith
qed

lemma roundHalfEven_of_int: "roundHalfEven (of_int n) = n"
  by (simp add: roundHalfEven_def)

lemma roundHalfEven_floor: "\<lfloor>q\<rfloor> \<le> roundHalfEven q" "roundHalfEven q \<le> \<lfloor>q\<rfloor> + 1"
  by (simp_all add: roundHalfEven_def Let_def)

lemma roundHalfEven_mono:
  assumes "q \<le> q'"
  shows "roundHalfEven q \<le> roundHalfEven q'"
proof (cases "\<lfloor>q\<rfloor> = \<lfloor>q'\<rfloor>")
  case True
  with assms show ?thesis
    by (simp add: roundHalfEven_def Let_def)
next
  case False
  with assms have "\<lfloor>q\<rfloor> + 1 \<le> \<lfloor>q'\<rfloor>"
    using floor_mono [OF assms] by linarith
  with roundHalfEven_floor(2) [of q] roundHalfEven_floor(1) [of q'] show ?thesis
    by linarith
qed



lemma ulp_pos: "0 < ulp x"
  by (simp add: ulp_def)

lemma ulp_times: "of_int (2 ^ n) * ulp x = 2 powi (max (binade x) (- 1022) - 52 + int n)"
  by (simp add: ulp_def power_int_add)

lemma roundPositive_0: "roundPositive 0 = 0"
  by (simp add: roundPositive_def roundHalfEven_def)

lemma roundPositive_nonneg:
  assumes "0 \<le> x"
  shows "0 \<le> roundPositive x"
proof -
  from assms ulp_pos [of x] have "0 \<le> x / ulp x"
    by simp
  then have "0 \<le> \<lfloor>x / ulp x\<rfloor>"
    by simp
  with roundHalfEven_floor(1) [of "x / ulp x"] have "0 \<le> roundHalfEven (x / ulp x)"
    by linarith
  with ulp_pos [of x] show ?thesis
    by (simp add: roundPositive_def)
qed

lemma roundPositive_upper:
  assumes "0 < x"
  shows "roundPositive x \<le> 2 powi (max (binade x) (- 1022) + 1)"
proof -
  let ?e = "max (binade x) (- 1022)"
  have "x < 2 powi (binade x + 1)"
    using assms by (rule binade_bounds)
  also have "\<dots> \<le> 2 powi (?e + 1)"
    by (intro two_powi_mono) simp
  also have "\<dots> = of_int (2 ^ 53) * ulp x"
    unfolding ulp_times by (rule arg_cong [where f = "power_int 2"]) simp
  finally have "x / ulp x \<le> of_int (2 ^ 53)"
    using ulp_pos [of x] by (simp add: pos_divide_le_eq)
  then have "roundHalfEven (x / ulp x) \<le> 2 ^ 53"
    using roundHalfEven_mono [of "x / ulp x" "of_int (2 ^ 53)"]
    by (simp only: roundHalfEven_of_int)
  then have "(of_int (roundHalfEven (x / ulp x)) :: rat) \<le> of_int (2 ^ 53)"
    by (simp only: of_int_le_iff)
  then have "roundPositive x \<le> of_int (2 ^ 53) * ulp x"
    unfolding roundPositive_def using ulp_pos [of x] by (intro mult_right_mono) simp_all
  also have "\<dots> = 2 powi (?e + 1)"
    unfolding ulp_times by (rule arg_cong [where f = "power_int 2"]) simp
  finally show ?thesis .
qed

lemma roundPositive_lower:
  assumes "- 1022 \<le> binade x" and "2 powi e \<le> x" "e \<le> binade x"
  shows "2 powi e \<le> roundPositive x"
proof -
  have pos: "0 < x"
    using assms(2) two_powi_pos [of e] by linarith
  have "(2::rat) powi binade x = of_int (2 ^ 52) * ulp x"
    unfolding ulp_times using assms(1)
    by (intro arg_cong [where f = "power_int 2"]) simp
  with binade_bounds(1) [OF pos] have "of_int (2 ^ 52) \<le> x / ulp x"
    using ulp_pos [of x] by (simp add: pos_le_divide_eq)
  then have "2 ^ 52 \<le> roundHalfEven (x / ulp x)"
    using roundHalfEven_mono [of "of_int (2 ^ 52)" "x / ulp x"]
    by (simp only: roundHalfEven_of_int)
  then have "(of_int (2 ^ 52) :: rat) \<le> of_int (roundHalfEven (x / ulp x))"
    by (simp only: of_int_le_iff)
  then have "of_int (2 ^ 52) * ulp x \<le> roundPositive x"
    unfolding roundPositive_def using ulp_pos [of x] by (intro mult_right_mono) simp_all
  moreover have "(2::rat) powi e \<le> 2 powi binade x"
    using assms(3) by (rule two_powi_mono)
  ultimately show ?thesis
    using \<open>(2::rat) powi binade x = of_int (2 ^ 52) * ulp x\<close> by linarith
qed

lemma roundPositive_mono:
  assumes "0 \<le> x" "x \<le> y"
  shows "roundPositive x \<le> roundPositive y"
proof (cases "x = 0")
  case True
  with assms roundPositive_nonneg [of y] show ?thesis
    by (simp add: roundPositive_0)
next
  case False
  with assms have x: "0 < x" and y: "0 < y"
    by simp_all
  let ?ex = "max (binade x) (- 1022)" and ?ey = "max (binade y) (- 1022)"
  have le: "?ex \<le> ?ey"
    using binade_mono [OF x assms(2)] by simp
  show ?thesis
  proof (cases "?ex = ?ey")
    case True
    then have u: "ulp x = ulp y"
      by (simp add: ulp_def)
    have "x / ulp y \<le> y / ulp y"
      using assms(2) ulp_pos [of y] by (simp add: divide_right_mono)
    then have "roundHalfEven (x / ulp y) \<le> roundHalfEven (y / ulp y)"
      by (rule roundHalfEven_mono)
    then have "(of_int (roundHalfEven (x / ulp y)) :: rat) \<le> of_int (roundHalfEven (y / ulp y))"
      by (simp only: of_int_le_iff)
    then show ?thesis
      unfolding roundPositive_def u using ulp_pos [of y] by (intro mult_right_mono) simp_all
  next
    case False
    with le have lt: "?ex + 1 \<le> ?ey" and n: "- 1022 \<le> binade y" and ey: "?ey = binade y"
      by simp_all
    have "roundPositive x \<le> 2 powi (?ex + 1)"
      using x by (rule roundPositive_upper)
    also have "\<dots> \<le> 2 powi binade y"
      using lt ey by (intro two_powi_mono) simp
    also have "\<dots> \<le> roundPositive y"
      using n binade_bounds(1) [OF y] by (rule roundPositive_lower) simp
    finally show ?thesis .
  qed
qed

lemma roundPositive_grid:
  assumes "- 1022 \<le> e" "0 \<le> n" "n \<le> 2 ^ 53" "e = - 1022 \<or> 2 ^ 52 \<le> n"
  shows "roundPositive (of_int n * 2 powi (e - 52)) = of_int n * 2 powi (e - 52)"
proof -
  let ?u = "(2::rat) powi (e - 52)"
  let ?r = "of_int n * ?u"
  have same: "roundPositive ?r = ?r" if "ulp ?r = ?u"
    using that by (simp add: roundPositive_def roundHalfEven_of_int)
  have scale: "of_int (2 ^ k) * ?u = 2 powi (e - 52 + int k)" for k
    by (simp add: power_int_add)
  consider "n = 0" | "n = 2 ^ 53" | "0 < n" "n < 2 ^ 52" | "2 ^ 52 \<le> n" "n < 2 ^ 53"
    using assms(2,3) by linarith
  then show ?thesis
  proof cases
    case 1
    then show ?thesis by (simp add: roundPositive_0)
  next
    case 2
    have r: "?r = 2 powi (e + 1)"
      unfolding 2 scale by (rule arg_cong [where f = "power_int 2"]) simp
    have "binade ?r = e + 1"
      unfolding r by (rule binade_unique) (simp_all add: two_powi_strict_mono)
    then have u: "ulp ?r = 2 powi (e + 1 - 52)"
      using assms(1) by (simp add: ulp_def)
    have "?r / 2 powi (e + 1 - 52) = 2 powi 52"
      unfolding r two_powi_diff by (rule arg_cong [where f = "power_int 2"]) simp
    also have "\<dots> = of_int (2 ^ 52)"
      by simp
    finally have "roundHalfEven (?r / ulp ?r) = 2 ^ 52"
      unfolding u by (simp only: roundHalfEven_of_int)
    then have "roundPositive ?r = of_int (2 ^ 52) * 2 powi (e + 1 - 52)"
      by (simp only: roundPositive_def u)
    also have "\<dots> = 2 powi (e + 1)"
      by (simp add: power_int_add power_int_diff)
    finally show ?thesis
      by (simp only: r)
  next
    case 3
    with assms(4) have e: "e = - 1022"
      by simp
    have pos: "0 < ?r"
      using 3(1) by simp
    have "(of_int n :: rat) < of_int (2 ^ 52)"
      using 3(2) by (simp only: of_int_less_iff)
    then have "?r < of_int (2 ^ 52) * ?u"
      by (intro mult_strict_right_mono) simp_all
    also have "\<dots> = 2 powi (- 1022)"
      unfolding scale by (rule arg_cong [where f = "power_int 2"]) (simp add: e)
    finally have "?r < 2 powi (- 1022)" .
    with binade_bounds(1) [OF pos] have "(2::rat) powi binade ?r < 2 powi (- 1022)"
      by linarith
    then have "binade ?r < - 1022"
      by (rule two_powi_less_imp)
    then have "ulp ?r = ?u"
      by (simp add: ulp_def e)
    then show ?thesis by (rule same)
  next
    case 4
    have n: "(of_int (2 ^ 52) :: rat) \<le> of_int n" "(of_int n :: rat) < of_int (2 ^ 53)"
      using 4 by (simp_all only: of_int_le_iff of_int_less_iff)
    have a: "of_int (2 ^ 52) * ?u \<le> ?r"
      using n(1) by (intro mult_right_mono) simp_all
    have b: "?r < of_int (2 ^ 53) * ?u"
      using n(2) by (intro mult_strict_right_mono) simp_all
    have c: "of_int (2 ^ 52) * ?u = 2 powi e" and d: "of_int (2 ^ 53) * ?u = 2 powi (e + 1)"
      unfolding scale by (rule arg_cong [where f = "power_int 2"], simp)+
    from a have "2 powi e \<le> ?r"
      by (simp only: c)
    moreover from b have "?r < 2 powi (e + 1)"
      by (simp only: d)
    ultimately have "binade ?r = e"
      by (rule binade_unique)
    then have "ulp ?r = ?u"
      using assms(1) by (simp add: ulp_def)
    then show ?thesis by (rule same)
  qed
qed

lemma roundPositive_idem:
  assumes "0 \<le> x"
  shows "roundPositive (roundPositive x) = roundPositive x"
proof (cases "x = 0")
  case True
  then show ?thesis by (simp add: roundPositive_0)
next
  case False
  with assms have x: "0 < x" by simp
  let ?e = "max (binade x) (- 1022)"
  let ?n = "roundHalfEven (x / ulp x)"
  have u: "ulp x = 2 powi (?e - 52)"
    by (simp add: ulp_def)
  have r: "roundPositive x = of_int ?n * 2 powi (?e - 52)"
    by (simp add: roundPositive_def u)
  have nonneg: "0 \<le> ?n"
    using roundPositive_nonneg [OF assms] ulp_pos [of x]
    by (simp add: roundPositive_def zero_le_mult_iff)
  have "of_int ?n * ulp x \<le> of_int (2 ^ 53) * ulp x"
    using roundPositive_upper [OF x] unfolding roundPositive_def ulp_times
    by (simp add: add.commute)
  then have "(of_int ?n :: rat) \<le> of_int (2 ^ 53)"
    using ulp_pos [of x] by (simp only: mult_le_cancel_right_pos)
  then have upper: "?n \<le> 2 ^ 53"
    by (simp only: of_int_le_iff)
  have lower: "?e = - 1022 \<or> 2 ^ 52 \<le> ?n"
  proof (cases "- 1022 \<le> binade x")
    case True
    from roundPositive_lower [OF True binade_bounds(1) [OF x]]
    have "of_int (2 ^ 52) * ulp x \<le> of_int ?n * ulp x"
      unfolding roundPositive_def ulp_times using True by (simp add: max_def)
    then have "(of_int (2 ^ 52) :: rat) \<le> of_int ?n"
      using ulp_pos [of x] by (simp only: mult_le_cancel_right_pos)
    then have "2 ^ 52 \<le> ?n"
      by (simp only: of_int_le_iff)
    then show ?thesis ..
  next
    case False
    then show ?thesis by simp
  qed
  show ?thesis
    unfolding r using _ nonneg upper lower by (rule roundPositive_grid) simp
qed


lemma binary64_0: "binary64 0 = 0"
  by (simp add: binary64_def roundPositive_0)

lemma binary64_nonneg: "0 \<le> x \<Longrightarrow> 0 \<le> binary64 x"
  by (simp add: binary64_def roundPositive_nonneg)

lemma binary64_nonpos: "x \<le> 0 \<Longrightarrow> binary64 x \<le> 0"
  using roundPositive_nonneg [of "- x"] by (auto simp: binary64_def roundPositive_0)

lemma binary64_mono:
  assumes "x \<le> y"
  shows "binary64 x \<le> binary64 y"
proof -
  consider "0 \<le> x" | "x < 0" "0 \<le> y" | "x < 0" "y < 0"
    by linarith
  then show ?thesis
  proof cases
    case 1
    with assms show ?thesis
      by (simp add: binary64_def roundPositive_mono)
  next
    case 2
    with binary64_nonpos [of x] binary64_nonneg [of y] show ?thesis
      by simp
  next
    case 3
    with assms roundPositive_mono [of "- y" "- x"] show ?thesis
      by (simp add: binary64_def)
  qed
qed

lemma binary64_idem: "binary64 (binary64 x) = binary64 x"
proof (cases "x < 0")
  case True
  then have r: "0 \<le> roundPositive (- x)"
    by (intro roundPositive_nonneg) simp
  show ?thesis
  proof (cases "roundPositive (- x) = 0")
    case True
    with \<open>x < 0\<close> show ?thesis
      by (simp add: binary64_def roundPositive_0)
  next
    case False
    with r \<open>x < 0\<close> show ?thesis
      by (simp add: binary64_def roundPositive_idem)
  qed
next
  case False
  then have "0 \<le> roundPositive x"
    by (intro roundPositive_nonneg) simp
  with False show ?thesis
    by (simp add: binary64_def roundPositive_idem)
qed


section \<open>Basic facts\<close>

lemma gameOver_fields:
  "speedRef (gameOver s) = speedRef s"
  "scoreRef (gameOver s) = scoreRef s"
  "score (gameOver s) = score s"
  "speed (gameOver s) = speed s"
  "playerRef (gameOver s) = playerRef s"
  "obstaclesRef (gameOver s) = obstaclesRef s"
  "landmarksRef (gameOver s) = landmarksRef s"
  "roadOffsetRef (gameOver s) = roadOffsetRef s"
  "lastTimeRef (gameOver s) = lastTimeRef s"
  "selectedTrackRef (gameOver s) = selectedTrackRef s"
  "customization (gameOver s) = customization s"
  by (simp_all add: gameOver_def Let_def)

lemma gameLoop_not_playing: "gameStateRef s \<noteq> PLAYING \<Longrightarrow> gameLoop time draws s = s"
  by (simp add: gameLoop_def)

lemma gameLoop_speedRef:
  "gameStateRef s = PLAYING \<Longrightarrow> speedRef (gameLoop time draws s) = tickSpeed s"
  by (simp add: gameLoop_def Let_def gameOver_fields tickSpeed_def case_prod_beta)

lemma gameLoop_playerRef: "playerRef (gameLoop time draws s) = playerRef s"
  by (simp add: gameLoop_def Let_def gameOver_fields case_prod_beta)

lemma gameLoop_obstaclesRef:
  "gameStateRef s = PLAYING \<Longrightarrow>
   obstaclesRef (gameLoop time draws s) = fst (tickObstacles draws s)"
  by (simp add: gameLoop_def Let_def gameOver_fields tickSpeed_def tickObstacles_def
      case_prod_beta)

lemma gameLoop_landmarksRef:
  "gameStateRef s = PLAYING \<Longrightarrow>
   landmarksRef (gameLoop time draws s) = fst (tickLandmarks draws s)"
  by (simp add: gameLoop_def Let_def gameOver_fields tickSpeed_def tickObstacles_def
      tickLandmarks_def case_prod_beta)

lemma collisionLoop_iff: "collisionLoop p obs \<longleftrightarrow> (\<exists>ob \<in> set obs. collides p ob)"
  by (induction obs) auto

lemma gameLoop_collision:
  "gameStateRef s = PLAYING \<Longrightarrow>
   collisionLoop (playerRef s) (fst (tickObstacles draws s)) \<Longrightarrow>
   gameStateRef (gameLoop time draws s) = GAMEOVER \<and>
   gameState (gameLoop time draws s) = GAMEOVER \<and>
   scoreRef (gameLoop time draws s) = scoreRef s \<and>
   score (gameLoop time draws s) = score s \<and>
   speed (gameLoop time draws s) = speed s"
  by (simp add: gameLoop_def Let_def gameOver_def tickSpeed_def tickObstacles_def
      case_prod_beta)

lemma gameLoop_no_collision:
  "gameStateRef s = PLAYING \<Longrightarrow>
   \<not> collisionLoop (playerRef s) (fst (tickObstacles draws s)) \<Longrightarrow>
   gameStateRef (gameLoop time draws s) = PLAYING \<and>
   gameState (gameLoop time draws s) = gameState s \<and>
   scoreRef (gameLoop time draws s) = scoreRef s + 1 \<and>
   highScore (gameLoop time draws s) = highScore s \<and>
   localStorage (gameLoop time draws s) = localStorage s"
  by (simp add: gameLoop_def Let_def gameOver_def tickSpeed_def tickObstacles_def
      case_prod_beta)

lemmas model_defs = startGame_def mount_def initialApp_def loadHighScore_def TRACKS_def
  newObstacle_def newLandmark_def js_index_def
  CANVAS_WIDTH_def CANVAS_HEIGHT_def LANE_WIDTH_def PLAYER_WIDTH_def PLAYER_HEIGHT_def
  OBSTACLE_WIDTH_def OBSTACLE_HEIGHT_def INITIAL_SPEED_def

lemma tickObstacles_landmarks_irrelevant:
  "tickObstacles draws (s\<lparr>landmarksRef := lms\<rparr>) = tickObstacles draws s"
  by (simp add: tickObstacles_def tickSpeed_def)

subsection \<open>The concrete states\<close>

lemma binary64_8: "binary64 8 = 8"
  by code_simp

lemma first_speed: "binary64 (8 + binary64 (2 / 1000)) = 4504725527277339 / 562949953421312"
  by code_simp

lemma edge_speed: "binary64 (binary64 (9998 / 1000) + binary64 (2 / 1000)) = 10"
  by code_simp

lemma playingState_eq:
  "playingState = (mount None)\<lparr>gameStateRef := PLAYING, gameState := PLAYING\<rparr>"
  by (simp add: playingState_def startGame_def mount_def loadHighScore_def initialApp_def
      Let_def binary64_0 binary64_8 INITIAL_SPEED_def TRACKS_def)

lemmas playing_defs = playingState_eq mount_def loadHighScore_def initialApp_def TRACKS_def
  CANVAS_WIDTH_def CANVAS_HEIGHT_def LANE_WIDTH_def PLAYER_WIDTH_def PLAYER_HEIGHT_def
  OBSTACLE_WIDTH_def OBSTACLE_HEIGHT_def INITIAL_SPEED_def

lemmas spawn_defs = spawnObstacles_def spawnLandmarks_def removeOffscreenObstacles_def
  removeOffscreenLandmarks_def moveObstacles_def moveLandmarks_def newObstacle_def
  newLandmark_def js_index_def Let_def

lemma effectiveIncrement_city:
  assumes "tires (upgrades cust) = 0"
  shows "effectiveIncrement (hd TRACKS) cust = binary64 (2 / 1000)"
proof -
  have "binary64 (1 / 10000) \<le> binary64 (2 / 1000)"
    by (rule binary64_mono) simp
  then have "max (binary64 (1 / 10000)) (binary64 (2 / 1000)) = binary64 (2 / 1000)"
    by (rule max_absorb2)
  moreover have "effectiveIncrement (hd TRACKS) cust =
      max (binary64 (1 / 10000)) (binary64 (binary64 (2 / 1000) - binary64 0))"
    unfolding effectiveIncrement_def Let_def assms TRACKS_def by simp
  ultimately show ?thesis
    by (simp add: binary64_0 binary64_idem)
qed

lemma tickSpeed_city:
  assumes "selectedTrackRef s = hd TRACKS" "tires (upgrades (customization s)) = 0"
  shows "tickSpeed s = binary64 (speedRef s + binary64 (2 / 1000))"
  unfolding tickSpeed_def assms(1) effectiveIncrement_city [OF assms(2)] ..

lemma playing_phase: "gameStateRef playingState = PLAYING"
  by (simp add: playing_defs)

lemma playing_speed: "speedRef playingState = 8"
  by (simp add: playing_defs)

lemma tickSpeed_playingState: "tickSpeed playingState = binary64 (8 + binary64 (2 / 1000))"
proof -
  have "tickSpeed playingState = binary64 (speedRef playingState + binary64 (2 / 1000))"
    by (rule tickSpeed_city) (simp_all add: playing_defs)
  then show ?thesis
    by (simp only: playing_speed)
qed

lemma first_frame_obstacles:
  "obstaclesRef (gameLoop 16 halfDraws playingState) = [newObstacle (hd TRACKS) (1 / 2) (1 / 2)]"
  unfolding gameLoop_obstaclesRef [OF playing_phase] tickObstacles_def tickSpeed_playingState
  by (simp add: spawn_defs playing_defs halfDraws_def)

lemma crash_phase: "gameStateRef crashState = PLAYING"
  by (simp add: crashState_def playing_defs)

lemma tickSpeed_crashState: "tickSpeed crashState = binary64 (8 + binary64 (2 / 1000))"
proof -
  have "tickSpeed crashState = binary64 (speedRef crashState + binary64 (2 / 1000))"
    by (rule tickSpeed_city) (simp_all add: crashState_def playing_defs)
  moreover have "speedRef crashState = 8"
    by (simp add: crashState_def playing_defs)
  ultimately show ?thesis
    by (simp only:)
qed

lemma crash_obstacles:
  "fst (tickObstacles halfDraws crashState) =
     [obstacleAt 1 (450 + binary64 (8 + binary64 (2 / 1000)))]"
  unfolding tickObstacles_def tickSpeed_crashState first_speed
  by (simp add: spawn_defs crashState_def playing_defs obstacleAt_def halfDraws_def)

lemma crash_hit:
  "collides (playerRef crashState) (obstacleAt 1 (450 + binary64 (8 + binary64 (2 / 1000))))"
  unfolding first_speed
  by (simp add: collides_def spawn_defs crashState_def playing_defs obstacleAt_def)

lemma edge_phase: "gameStateRef edgeState = PLAYING"
  by (simp add: edgeState_def playing_defs)

lemma tickSpeed_edgeState: "tickSpeed edgeState = 10"
proof -
  have "tickSpeed edgeState = binary64 (speedRef edgeState + binary64 (2 / 1000))"
    by (rule tickSpeed_city) (simp_all add: edgeState_def playing_defs)
  moreover have "speedRef edgeState = binary64 (9998 / 1000)"
    by (simp add: edgeState_def)
  ultimately show ?thesis
    by (simp only: edge_speed)
qed

lemma edge_speed_after: "speedRef (gameLoop 16 halfDraws edgeState) = 10"
  by (simp only: gameLoop_speedRef [OF edge_phase] tickSpeed_edgeState)

lemma edge_moved:
  "moveObstacles 10 (obstaclesRef edgeState) = [obstacleAt 0 600, obstacleAt 0 550]"
  by (simp add: spawn_defs edgeState_def playing_defs obstacleAt_def)

lemma edge_obstacles: "obstaclesRef (gameLoop 16 halfDraws edgeState) = [obstacleAt 0 550]"
  unfolding gameLoop_obstaclesRef [OF edge_phase] tickObstacles_def tickSpeed_edgeState
  by (simp add: spawn_defs edgeState_def playing_defs obstacleAt_def halfDraws_def)

section \<open>Collision\<close>

text \<open>
  Claim C1. In a frame that starts in phase \<open>PLAYING\<close>, the collision test between the
  player and an obstacle is exactly the four strict inequalities on the two rectangles;
  the loop runs over the obstacle array as it stands after moving, removing and
  spawning (the array the frame leaves in \<open>obstaclesRef\<close>), and never looks at the
  landmarks. The phase after the frame is \<open>GAMEOVER\<close> exactly when some obstacle of
  that array overlaps the player, and in that case the frame stops there: the score
  (ref and displayed value) is the one the frame started with.
\<close>

theorem collision_ends_tick:
  assumes "gameStateRef s = PLAYING"
  shows "(\<forall>ob. collides (playerRef s) ob \<longleftrightarrow>
            obj_x (playerRef s) < obj_x ob + obj_width ob \<and>
            obj_x (playerRef s) + obj_width (playerRef s) > obj_x ob \<and>
            obj_y (playerRef s) < obj_y ob + obj_height ob \<and>
            obj_y (playerRef s) + obj_height (playerRef s) > obj_y ob) \<and>
         (gameStateRef (gameLoop time draws s) = GAMEOVER \<longleftrightarrow>
            (\<exists>ob \<in> set (obstaclesRef (gameLoop time draws s)). collides (playerRef s) ob)) \<and>
         ((\<exists>ob \<in> set (obstaclesRef (gameLoop time draws s)). collides (playerRef s) ob) \<longrightarrow>
            gameState (gameLoop time draws s) = GAMEOVER \<and>
            scoreRef (gameLoop time draws s) = scoreRef s \<and>
            score (gameLoop time draws s) = score s \<and>
            speed (gameLoop time draws s) = speed s) \<and>
         gameStateRef (gameLoop time draws (s\<lparr>landmarksRef := lms\<rparr>)) =
           gameStateRef (gameLoop time draws s)"
proof -
  let ?obs = "fst (tickObstacles draws s)"
  let ?s' = "s\<lparr>landmarksRef := lms\<rparr>"
  have obs: "obstaclesRef (gameLoop time draws s) = ?obs"
    using assms by (rule gameLoop_obstaclesRef)
  have p': "gameStateRef ?s' = PLAYING"
    using assms by simp
  have obs': "fst (tickObstacles draws ?s') = ?obs"
    by (simp only: tickObstacles_landmarks_irrelevant)
  have pl': "playerRef ?s' = playerRef s"
    by simp
  have c1: "\<forall>ob. collides (playerRef s) ob \<longleftrightarrow>
            obj_x (playerRef s) < obj_x ob + obj_width ob \<and>
            obj_x (playerRef s) + obj_width (playerRef s) > obj_x ob \<and>
            obj_y (playerRef s) < obj_y ob + obj_height ob \<and>
            obj_y (playerRef s) + obj_height (playerRef s) > obj_y ob"
    by (simp add: collides_def)
  show ?thesis
  proof (cases "collisionLoop (playerRef s) ?obs")
    case True
    note h = gameLoop_collision [OF assms True, of time]
    have "collisionLoop (playerRef ?s') (fst (tickObstacles draws ?s'))"
      using True unfolding obs' pl' .
    note h' = gameLoop_collision [OF p' this, of time]
    from True have ex: "\<exists>ob \<in> set (obstaclesRef (gameLoop time draws s)). collides (playerRef s) ob"
      by (simp add: obs collisionLoop_iff)
    from c1 h h' ex show ?thesis by simp
  next
    case False
    note h = gameLoop_no_collision [OF assms False, of time]
    have "\<not> collisionLoop (playerRef ?s') (fst (tickObstacles draws ?s'))"
      using False unfolding obs' pl' .
    note h' = gameLoop_no_collision [OF p' this, of time]
    from False have ex: "\<not> (\<exists>ob \<in> set (obstaclesRef (gameLoop time draws s)). collides (playerRef s) ob)"
      by (simp add: obs collisionLoop_iff)
    from c1 h h' ex show ?thesis by simp
  qed
qed

theorem collision_ends_tick_witness:
  "gameStateRef crashState = PLAYING \<and>
   collides (playerRef crashState) (obstacleAt 1 (450 + binary64 (8 + binary64 (2 / 1000)))) \<and>
   obstaclesRef (gameLoop 16 halfDraws crashState) = [obstacleAt 1 (450 + binary64 (8 + binary64 (2 / 1000)))] \<and>
   gameStateRef (gameLoop 16 halfDraws crashState) = GAMEOVER \<and>
   scoreRef (gameLoop 16 halfDraws crashState) = scoreRef crashState"
proof -
  have obs: "obstaclesRef (gameLoop 16 halfDraws crashState) =
      [obstacleAt 1 (450 + binary64 (8 + binary64 (2 / 1000)))]"
    by (simp only: gameLoop_obstaclesRef [OF crash_phase] crash_obstacles)
  from collision_ends_tick [OF crash_phase, of 16 halfDraws] obs crash_hit crash_phase
  show ?thesis
    by simp
qed

section \<open>Score\<close>

text \<open>
  Claim C2, as stated, at a concrete state: a frame that starts in phase \<open>PLAYING\<close> with
  an obstacle level with the player in the player's lane does not add one to the score.
\<close>

theorem score_not_incremented_on_collision:
  "gameStateRef crashState = PLAYING \<and>
   scoreRef (gameLoop 16 halfDraws crashState) \<noteq> scoreRef crashState + 1"
proof -
  have "collisionLoop (playerRef crashState) (fst (tickObstacles halfDraws crashState))"
    unfolding crash_obstacles using crash_hit by simp
  from gameLoop_collision [OF crash_phase this, of 16] crash_phase show ?thesis
    by simp
qed

text \<open>
  Claim C2, amended. A frame that starts in phase \<open>PLAYING\<close> and finds no obstacle
  overlapping the player adds exactly one to the score, whatever the speed, the lane,
  the draws and the entities are.
\<close>

theorem score_increment_without_collision:
  assumes "gameStateRef s = PLAYING"
    and "\<not> (\<exists>ob \<in> set (obstaclesRef (gameLoop time draws s)). collides (playerRef s) ob)"
  shows "scoreRef (gameLoop time draws s) = scoreRef s + 1"
proof -
  have "\<not> collisionLoop (playerRef s) (fst (tickObstacles draws s))"
    using assms(2) unfolding gameLoop_obstaclesRef [OF assms(1)] collisionLoop_iff .
  from gameLoop_no_collision [OF assms(1) this, of time] show ?thesis
    by simp
qed

theorem score_increment_without_collision_witness:
  "gameStateRef playingState = PLAYING \<and>
   \<not> (\<exists>ob \<in> set (obstaclesRef (gameLoop 16 halfDraws playingState)).
        collides (playerRef playingState) ob) \<and>
   scoreRef (gameLoop 16 halfDraws playingState) = 1"
proof -
  have miss: "\<not> (\<exists>ob \<in> set (obstaclesRef (gameLoop 16 halfDraws playingState)).
        collides (playerRef playingState) ob)"
    unfolding first_frame_obstacles by (simp add: collides_def spawn_defs playing_defs)
  have "scoreRef playingState = 0"
    by (simp add: playing_defs)
  with score_increment_without_collision [OF playing_phase miss] playing_phase miss
  show ?thesis
    by simp
qed

section \<open>Speed\<close>














section \<open>Frames outside a session\<close>

text \<open>
  Claim C8. A frame callback that fires while the phase is not \<open>PLAYING\<close> returns at
  once: every field of the state (score, speed, phase, player, obstacles, landmarks and
  the rest) is unchanged.
\<close>

theorem tick_outside_playing_is_noop:
  "gameStateRef s \<noteq> PLAYING \<Longrightarrow> gameLoop time draws s = s"
  by (simp add: gameLoop_def)

theorem tick_outside_playing_is_noop_witness:
  "gameStateRef (mount None) \<noteq> PLAYING \<and> gameLoop 16 halfDraws (mount None) = mount None"
proof -
  have "gameStateRef (mount None) \<noteq> PLAYING"
    by (simp add: model_defs)
  with tick_outside_playing_is_noop [of "mount None" 16 halfDraws] show ?thesis
    by simp
qed

section \<open>Spawning obstacles\<close>

lemma fst_spawnObstacles:
  "fst (spawnObstacles track draws 0 obs) =
     (if obs = [] then [newObstacle track (draws 0) (draws 1)]
      else if obj_y (last obs) > 200 \<and> draws 0 < 2 / 100
           then obs @ [newObstacle track (draws 1) (draws 2)]
      else obs)"
  by (simp add: spawnObstacles_def numeral_2_eq_2)

lemma newObstacle_lane: "obj_lane (newObstacle track r r') = \<lfloor>r * 3\<rfloor>"
  by (simp add: newObstacle_def Let_def)

lemma newObstacle_y: "obj_y (newObstacle track r r') = - OBSTACLE_HEIGHT"
  by (simp add: newObstacle_def Let_def)

lemma newObstacle_type:
  "obj_type (newObstacle track r r') = js_index [pottery, stall, chariot] \<lfloor>r' * 3\<rfloor>"
  by (simp add: newObstacle_def Let_def)

lemma floor3_iff: "\<lfloor>r * 3\<rfloor> = n \<longleftrightarrow> of_int n / 3 \<le> r \<and> r < (of_int n + 1) / 3" for r :: rat
  by (simp add: floor_eq_iff field_simps)

lemma floor3_range: "0 \<le> r \<Longrightarrow> r < 1 \<Longrightarrow> \<lfloor>r * 3\<rfloor> \<in> {0, 1, 2}" for r :: rat
proof -
  assume r: "0 \<le> r" "r < 1"
  define n where "n = \<lfloor>r * 3\<rfloor>"
  have "0 \<le> n" "n < 3"
    using r by (simp_all add: n_def floor_less_iff)
  then have "n \<in> {0, 1, 2}" by auto
  then show ?thesis by (simp only: n_def)
qed

lemma type_of_draw:
  fixes r :: rat
  assumes "0 \<le> r" "r < 1"
  shows "js_index [pottery, stall, chariot] \<lfloor>r * 3\<rfloor> =
          Some (if r < 1 / 3 then pottery else if r < 2 / 3 then stall else chariot)"
proof -
  from floor3_range [OF assms] consider "\<lfloor>r * 3\<rfloor> = 0" | "\<lfloor>r * 3\<rfloor> = 1" | "\<lfloor>r * 3\<rfloor> = 2"
    by auto
  then show ?thesis
  proof cases
    case 1
    with floor3_iff [of r 0] show ?thesis by (simp add: js_index_def)
  next
    case 2
    with floor3_iff [of r 1] show ?thesis by (simp add: js_index_def)
  next
    case 3
    with floor3_iff [of r 2] show ?thesis by (simp add: js_index_def)
  qed
qed

text \<open>
  Claim C4. In a frame that starts in phase \<open>PLAYING\<close>, let \<open>kept\<close> be the obstacles
  left after moving and removing. One obstacle is appended exactly when \<open>kept\<close> is
  empty, or the last element of \<open>kept\<close> (the most recently spawned one) has \<open>y > 200\<close>
  and the first draw of the frame is below \<open>0.02\<close>; otherwise the array is \<open>kept\<close>.
  So at most one obstacle is spawned per frame. The new obstacle sits at
  \<open>y = - OBSTACLE_HEIGHT\<close>; its lane is \<open>n\<close> exactly for the draws in
  \<open>[n/3, (n+1)/3)\<close>, hence one of 0, 1, 2 with equal shares of the unit interval, and
  its kind is pottery, stall or chariot on the three thirds of the unit interval.
\<close>

theorem obstacle_spawn_policy:
  assumes "gameStateRef s = PLAYING"
  shows "(let kept = removeOffscreenObstacles
                       (moveObstacles (speedRef (gameLoop time draws s)) (obstaclesRef s));
              track = selectedTrackRef s
          in obstaclesRef (gameLoop time draws s) =
               (if kept = [] then [newObstacle track (draws 0) (draws 1)]
                else if obj_y (last kept) > 200 \<and> draws 0 < 2 / 100
                     then kept @ [newObstacle track (draws 1) (draws 2)]
                else kept) \<and>
             (length (obstaclesRef (gameLoop time draws s)) = length kept + 1 \<longleftrightarrow>
                kept = [] \<or> (obj_y (last kept) > 200 \<and> draws 0 < 2 / 100)) \<and>
             (length (obstaclesRef (gameLoop time draws s)) = length kept \<longleftrightarrow>
                \<not> (kept = [] \<or> (obj_y (last kept) > 200 \<and> draws 0 < 2 / 100)))) \<and>
         obj_y (newObstacle track r r') = - OBSTACLE_HEIGHT \<and>
         (obj_lane (newObstacle track r r') = n \<longleftrightarrow> of_int n / 3 \<le> r \<and> r < (of_int n + 1) / 3) \<and>
         (0 \<le> r \<and> r < 1 \<longrightarrow> obj_lane (newObstacle track r r') \<in> {0, 1, 2}) \<and>
         (0 \<le> r' \<and> r' < 1 \<longrightarrow>
            obj_type (newObstacle track r r') =
              Some (if r' < 1 / 3 then pottery else if r' < 2 / 3 then stall else chariot))"
proof -
  have speed: "speedRef (gameLoop time draws s) = tickSpeed s"
    using assms by (rule gameLoop_speedRef)
  have obs: "obstaclesRef (gameLoop time draws s) =
      fst (spawnObstacles (selectedTrackRef s) draws 0
            (removeOffscreenObstacles (moveObstacles (tickSpeed s) (obstaclesRef s))))"
    using assms by (simp add: gameLoop_obstaclesRef tickObstacles_def)
  have policy: "(let kept = removeOffscreenObstacles
                       (moveObstacles (speedRef (gameLoop time draws s)) (obstaclesRef s));
              track = selectedTrackRef s
          in obstaclesRef (gameLoop time draws s) =
               (if kept = [] then [newObstacle track (draws 0) (draws 1)]
                else if obj_y (last kept) > 200 \<and> draws 0 < 2 / 100
                     then kept @ [newObstacle track (draws 1) (draws 2)]
                else kept) \<and>
             (length (obstaclesRef (gameLoop time draws s)) = length kept + 1 \<longleftrightarrow>
                kept = [] \<or> (obj_y (last kept) > 200 \<and> draws 0 < 2 / 100)) \<and>
             (length (obstaclesRef (gameLoop time draws s)) = length kept \<longleftrightarrow>
                \<not> (kept = [] \<or> (obj_y (last kept) > 200 \<and> draws 0 < 2 / 100))))"
    unfolding obs speed Let_def fst_spawnObstacles by simp
  have lane: "obj_lane (newObstacle track r r') = n \<longleftrightarrow> of_int n / 3 \<le> r \<and> r < (of_int n + 1) / 3"
    unfolding newObstacle_lane by (rule floor3_iff)
  have range: "0 \<le> r \<and> r < 1 \<longrightarrow> obj_lane (newObstacle track r r') \<in> {0, 1, 2}"
    unfolding newObstacle_lane using floor3_range [of r] by blast
  have type: "0 \<le> r' \<and> r' < 1 \<longrightarrow>
            obj_type (newObstacle track r r') =
              Some (if r' < 1 / 3 then pottery else if r' < 2 / 3 then stall else chariot)"
    unfolding newObstacle_type using type_of_draw [of r'] by blast
  from policy newObstacle_y [of track r r'] lane range type show ?thesis
    by blast
qed

theorem obstacle_spawn_policy_witness:
  "gameStateRef playingState = PLAYING \<and>
   (0::rat) \<le> 1 / 2 \<and> (1 / 2 :: rat) < 1 \<and>
   obstaclesRef (gameLoop 16 halfDraws playingState) = [newObstacle (hd TRACKS) (1 / 2) (1 / 2)] \<and>
   obj_lane (newObstacle (hd TRACKS) (1 / 2) (1 / 2)) = 1 \<and>
   obj_type (newObstacle (hd TRACKS) (1 / 2) (1 / 2)) = Some stall"
proof -
  have e: "obstaclesRef playingState = []" "selectedTrackRef playingState = hd TRACKS"
    by (simp_all add: playing_defs)
  from obstacle_spawn_policy [OF playing_phase, of 16 halfDraws "hd TRACKS" "1 / 2" "1 / 2" 1]
    playing_phase e
  show ?thesis
    by (simp add: Let_def moveObstacles_def removeOffscreenObstacles_def halfDraws_def)
qed

section \<open>Removing off-screen entities\<close>

lemma set_fst_spawnObstacles:
  "set (fst (spawnObstacles track draws k obs)) \<subseteq> set obs \<union> {ob. obj_y ob = - OBSTACLE_HEIGHT}"
  "set obs \<subseteq> set (fst (spawnObstacles track draws k obs))"
  by (auto simp: spawnObstacles_def newObstacle_def Let_def)

lemma set_fst_spawnLandmarks:
  "set (fst (spawnLandmarks track draws k lms)) \<subseteq> set lms \<union> {lm. lm_y lm = - 200}"
  "set lms \<subseteq> set (fst (spawnLandmarks track draws k lms))"
  by (auto simp: spawnLandmarks_def newLandmark_def Let_def)

lemma tickObstacles_set:
  "set (fst (tickObstacles draws s)) \<subseteq>
     {ob \<in> set (moveObstacles (tickSpeed s) (obstaclesRef s)). obj_y ob < CANVAS_HEIGHT}
     \<union> {ob. obj_y ob = - OBSTACLE_HEIGHT}"
  "{ob \<in> set (moveObstacles (tickSpeed s) (obstaclesRef s)). obj_y ob < CANVAS_HEIGHT}
     \<subseteq> set (fst (tickObstacles draws s))"
  using set_fst_spawnObstacles [where track = "selectedTrackRef s" and draws = draws and k = 0
      and obs = "removeOffscreenObstacles (moveObstacles (tickSpeed s) (obstaclesRef s))"]
  by (auto simp: tickObstacles_def removeOffscreenObstacles_def)

lemma tickLandmarks_set:
  "set (fst (tickLandmarks draws s)) \<subseteq>
     {lm \<in> set (moveLandmarks (tickSpeed s) (landmarksRef s)). lm_y lm < CANVAS_HEIGHT}
     \<union> {lm. lm_y lm = - 200}"
  "{lm \<in> set (moveLandmarks (tickSpeed s) (landmarksRef s)). lm_y lm < CANVAS_HEIGHT}
     \<subseteq> set (fst (tickLandmarks draws s))"
  using set_fst_spawnLandmarks [where track = "selectedTrackRef s" and draws = draws
      and k = "snd (tickObstacles draws s)"
      and lms = "removeOffscreenLandmarks (moveLandmarks (tickSpeed s) (landmarksRef s))"]
  by (auto simp: tickLandmarks_def removeOffscreenLandmarks_def)

text \<open>
  Claim C5, as stated, at a concrete state. Entities move down, so the edge of an
  obstacle that leads is its lower edge \<open>y + height\<close>. A frame at speed 10 moves two
  obstacles to \<open>y = 600\<close> and \<open>y = 550\<close>. The second has its lower edge at 630, beyond
  the bottom boundary 600, and is kept; the first has \<open>y\<close> on the boundary, not beyond
  it, and is removed.
\<close>

theorem leading_edge_crossed_but_retained:
  "gameStateRef edgeState = PLAYING \<and>
   moveObstacles (speedRef (gameLoop 16 halfDraws edgeState)) (obstaclesRef edgeState) =
     [obstacleAt 0 600, obstacleAt 0 550] \<and>
   obstaclesRef (gameLoop 16 halfDraws edgeState) = [obstacleAt 0 550] \<and>
   CANVAS_HEIGHT < bottomEdge (obstacleAt 0 550) \<and>
   \<not> CANVAS_HEIGHT < obj_y (obstacleAt 0 600)"
proof -
  have e: "CANVAS_HEIGHT < bottomEdge (obstacleAt 0 550)"
    "\<not> CANVAS_HEIGHT < obj_y (obstacleAt 0 600)"
    by (simp_all add: bottomEdge_def obstacleAt_def spawn_defs playing_defs)
  from edge_phase edge_moved edge_obstacles e show ?thesis
    unfolding edge_speed_after by simp
qed

text \<open>
  Claim C5, amended. In a frame that starts in phase \<open>PLAYING\<close>, after the motion step
  an obstacle or landmark is removed exactly when its \<open>y\<close> coordinate (the upper edge,
  which trails) has reached the bottom boundary, \<open>y \<ge> CANVAS_HEIGHT\<close>, and is kept
  exactly when \<open>y < CANVAS_HEIGHT\<close>.
\<close>

theorem offscreen_removal:
  assumes "gameStateRef s = PLAYING"
  shows "(\<forall>ob \<in> set (moveObstacles (speedRef (gameLoop time draws s)) (obstaclesRef s)).
            (CANVAS_HEIGHT \<le> obj_y ob \<longrightarrow> ob \<notin> set (obstaclesRef (gameLoop time draws s))) \<and>
            (obj_y ob < CANVAS_HEIGHT \<longrightarrow> ob \<in> set (obstaclesRef (gameLoop time draws s)))) \<and>
         (\<forall>lm \<in> set (moveLandmarks (speedRef (gameLoop time draws s)) (landmarksRef s)).
            (CANVAS_HEIGHT \<le> lm_y lm \<longrightarrow> lm \<notin> set (landmarksRef (gameLoop time draws s))) \<and>
            (lm_y lm < CANVAS_HEIGHT \<longrightarrow> lm \<in> set (landmarksRef (gameLoop time draws s))))"
proof -
  have top: "- OBSTACLE_HEIGHT < CANVAS_HEIGHT" "- 200 < CANVAS_HEIGHT"
    by (simp_all add: OBSTACLE_HEIGHT_def CANVAS_HEIGHT_def)
  have obs: "\<forall>ob \<in> set (moveObstacles (tickSpeed s) (obstaclesRef s)).
            (CANVAS_HEIGHT \<le> obj_y ob \<longrightarrow> ob \<notin> set (fst (tickObstacles draws s))) \<and>
            (obj_y ob < CANVAS_HEIGHT \<longrightarrow> ob \<in> set (fst (tickObstacles draws s)))"
    using tickObstacles_set [where draws = draws and s = s] top by fastforce
  have lms: "\<forall>lm \<in> set (moveLandmarks (tickSpeed s) (landmarksRef s)).
            (CANVAS_HEIGHT \<le> lm_y lm \<longrightarrow> lm \<notin> set (fst (tickLandmarks draws s))) \<and>
            (lm_y lm < CANVAS_HEIGHT \<longrightarrow> lm \<in> set (fst (tickLandmarks draws s)))"
    using tickLandmarks_set [where draws = draws and s = s] top by fastforce
  from obs lms show ?thesis
    unfolding gameLoop_speedRef [OF assms] gameLoop_obstaclesRef [OF assms]
      gameLoop_landmarksRef [OF assms] by (rule conjI)
qed

theorem offscreen_removal_witness:
  "gameStateRef edgeState = PLAYING \<and>
   obstacleAt 0 600 \<in> set (moveObstacles (speedRef (gameLoop 16 halfDraws edgeState)) (obstaclesRef edgeState)) \<and>
   obstacleAt 0 550 \<in> set (moveObstacles (speedRef (gameLoop 16 halfDraws edgeState)) (obstaclesRef edgeState)) \<and>
   CANVAS_HEIGHT \<le> obj_y (obstacleAt 0 600) \<and>
   obj_y (obstacleAt 0 550) < CANVAS_HEIGHT \<and>
   obstacleAt 0 600 \<notin> set (obstaclesRef (gameLoop 16 halfDraws edgeState)) \<and>
   obstacleAt 0 550 \<in> set (obstaclesRef (gameLoop 16 halfDraws edgeState))"
proof -
  have y: "CANVAS_HEIGHT \<le> obj_y (obstacleAt 0 600)" "obj_y (obstacleAt 0 550) < CANVAS_HEIGHT"
    by (simp_all add: obstacleAt_def spawn_defs playing_defs)
  from offscreen_removal [OF edge_phase, of 16 halfDraws] edge_phase y show ?thesis
    unfolding edge_speed_after edge_moved by simp
qed

section \<open>Best score\<close>

lemma bestInSync_mount: "bestInSync (mount saved)"
  by (simp add: bestInSync_def mount_def loadHighScore_def initialApp_def persistedBest_def
      split: option.splits)

lemma bestInSync_gameOver: "bestInSync s \<Longrightarrow> bestInSync (gameOver s)"
  by (simp add: bestInSync_def gameOver_def Let_def persistedBest_def)

lemma gameLoop_best:
  "highScore (gameLoop time draws s) = highScore s \<and>
   localStorage (gameLoop time draws s) = localStorage s \<or>
   highScore (gameLoop time draws s) = highScore (gameOver (s\<lparr>gameStateRef := PLAYING\<rparr>)) \<and>
   localStorage (gameLoop time draws s) = localStorage (gameOver (s\<lparr>gameStateRef := PLAYING\<rparr>))"
  by (simp add: gameLoop_def gameOver_def Let_def case_prod_beta)

lemma bestInSync_handle: "bestInSync s \<Longrightarrow> bestInSync (handle e s)"
proof (cases e)
  case (Frame time draws)
  assume "bestInSync s"
  then have "bestInSync (gameOver (s\<lparr>gameStateRef := PLAYING\<rparr>))"
    by (intro bestInSync_gameOver) (simp add: bestInSync_def)
  with \<open>bestInSync s\<close> gameLoop_best [of time draws s] show ?thesis
    by (auto simp: Frame bestInSync_def)
qed (simp_all add: bestInSync_def handleKeyDown_def movePlayer_def Let_def startGame_def
      handleTrackSelect_def handleGarageClick_def handleBackToStart_def
      handleCustomizationChange_def)

lemma bestInSync_run: "bestInSync s \<Longrightarrow> bestInSync (run es s)"
  by (induction es arbitrary: s) (simp_all add: bestInSync_handle)

lemma bestInSync_reachable: "bestInSync (run es (mount saved))"
  by (simp add: bestInSync_run bestInSync_mount)

lemma gameLoop_collision_best:
  "gameStateRef s = PLAYING \<Longrightarrow>
   collisionLoop (playerRef s) (fst (tickObstacles draws s)) \<Longrightarrow>
   localStorage (gameLoop time draws s) =
     (if scoreRef s > highScore s then Some (scoreRef s) else localStorage s) \<and>
   highScore (gameLoop time draws s) =
     (if scoreRef s > highScore s then scoreRef s else highScore s)"
  by (simp add: gameLoop_def Let_def gameOver_def tickSpeed_def tickObstacles_def
      case_prod_beta)

lemma handle_best:
  "(\<exists>time draws. e = Frame time draws) \<or>
   localStorage (handle e s) = localStorage s \<and> highScore (handle e s) = highScore s"
  by (cases e) (simp_all add: handleKeyDown_def movePlayer_def Let_def startGame_def
      handleTrackSelect_def handleGarageClick_def handleBackToStart_def
      handleCustomizationChange_def)

text \<open>
  Claim C6. Let a frame start in phase \<open>PLAYING\<close> with score \<open>S = scoreRef s\<close> while the
  store stands for the best score \<open>B\<close> (and the state variable \<open>highScore\<close> holds \<open>B\<close>, as
  it does in every state reachable from mounting the component). If the frame ends the
  session (the phase after it is \<open>GAMEOVER\<close>), the final score is \<open>S\<close> and the frame
  writes \<open>S\<close> to the store exactly when \<open>S > B\<close>, leaving the store as it was otherwise,
  a tie included; the best score the store stands for afterwards is \<open>S\<close> if \<open>S > B\<close>
  and \<open>B\<close> if not. A frame that does not end the session leaves the store alone, and
  so does every event that is not a frame. The update is the one \<open>gameOver\<close> makes.
\<close>

theorem best_score_update:
  assumes "gameStateRef s = PLAYING"
    and "highScore s = persistedBest (localStorage s)"
  shows "persistedBest (localStorage (gameOver s)) =
           (if scoreRef s > persistedBest (localStorage s) then scoreRef s
            else persistedBest (localStorage s)) \<and>
         localStorage (gameOver s) =
           (if scoreRef s > persistedBest (localStorage s) then Some (scoreRef s)
            else localStorage s) \<and>
         highScore (gameOver s) = persistedBest (localStorage (gameOver s)) \<and>
         highScore (run es (mount saved)) = persistedBest (localStorage (run es (mount saved))) \<and>
         (gameStateRef (gameLoop time draws s) = GAMEOVER \<longrightarrow>
            scoreRef (gameLoop time draws s) = scoreRef s \<and>
            localStorage (gameLoop time draws s) =
              (if scoreRef s > persistedBest (localStorage s) then Some (scoreRef s)
               else localStorage s) \<and>
            persistedBest (localStorage (gameLoop time draws s)) =
              (if scoreRef s > persistedBest (localStorage s) then scoreRef s
               else persistedBest (localStorage s)) \<and>
            highScore (gameLoop time draws s) =
              persistedBest (localStorage (gameLoop time draws s))) \<and>
         (gameStateRef (gameLoop time draws s) \<noteq> GAMEOVER \<longrightarrow>
            localStorage (gameLoop time draws s) = localStorage s \<and>
            highScore (gameLoop time draws s) = highScore s) \<and>
         ((\<exists>time draws. e = Frame time draws) \<or>
            localStorage (handle e s') = localStorage s' \<and>
            highScore (handle e s') = highScore s')"
proof -
  have old: "persistedBest (localStorage (gameOver s)) =
           (if scoreRef s > persistedBest (localStorage s) then scoreRef s
            else persistedBest (localStorage s)) \<and>
         localStorage (gameOver s) =
           (if scoreRef s > persistedBest (localStorage s) then Some (scoreRef s)
            else localStorage s) \<and>
         highScore (gameOver s) = persistedBest (localStorage (gameOver s)) \<and>
         highScore (run es (mount saved)) = persistedBest (localStorage (run es (mount saved)))"
    using assms bestInSync_reachable [of es saved]
    by (simp add: gameOver_def Let_def persistedBest_def bestInSync_def)
  have frame: "(gameStateRef (gameLoop time draws s) = GAMEOVER \<longrightarrow>
            scoreRef (gameLoop time draws s) = scoreRef s \<and>
            localStorage (gameLoop time draws s) =
              (if scoreRef s > persistedBest (localStorage s) then Some (scoreRef s)
               else localStorage s) \<and>
            persistedBest (localStorage (gameLoop time draws s)) =
              (if scoreRef s > persistedBest (localStorage s) then scoreRef s
               else persistedBest (localStorage s)) \<and>
            highScore (gameLoop time draws s) =
              persistedBest (localStorage (gameLoop time draws s))) \<and>
         (gameStateRef (gameLoop time draws s) \<noteq> GAMEOVER \<longrightarrow>
            localStorage (gameLoop time draws s) = localStorage s \<and>
            highScore (gameLoop time draws s) = highScore s)"
  proof (cases "collisionLoop (playerRef s) (fst (tickObstacles draws s))")
    case True
    from gameLoop_collision [OF assms(1) True, of time]
      gameLoop_collision_best [OF assms(1) True, of time] assms(2)
    show ?thesis
      by (simp add: persistedBest_def)
  next
    case False
    from gameLoop_no_collision [OF assms(1) False, of time] show ?thesis
      by simp
  qed
  from old frame handle_best [of e s'] show ?thesis
    by (intro conjI) blast+
qed

theorem best_score_update_witness:
  "gameStateRef recordState = PLAYING \<and> gameStateRef tieState = PLAYING \<and>
   highScore recordState = persistedBest (localStorage recordState) \<and>
   highScore tieState = persistedBest (localStorage tieState) \<and>
   scoreRef recordState = 5 \<and> scoreRef tieState = 3 \<and>
   localStorage recordState = Some 3 \<and> localStorage tieState = Some 3 \<and>
   localStorage (gameOver recordState) = Some 5 \<and>
   localStorage (gameOver tieState) = Some 3 \<and>
   gameStateRef (gameLoop 16 halfDraws recordState) = GAMEOVER \<and>
   gameStateRef (gameLoop 16 halfDraws tieState) = GAMEOVER \<and>
   localStorage (gameLoop 16 halfDraws recordState) = Some 5 \<and>
   localStorage (gameLoop 16 halfDraws tieState) = Some 3 \<and>
   localStorage (handle GarageClick recordState) = Some 3"
proof -
  have r1: "gameStateRef recordState = PLAYING"
    by (simp add: recordState_def crash_phase)
  have r2: "highScore recordState = persistedBest (localStorage recordState)"
    by (simp add: recordState_def persistedBest_def)
  have t1: "gameStateRef tieState = PLAYING"
    by (simp add: tieState_def crash_phase)
  have t2: "highScore tieState = persistedBest (localStorage tieState)"
    by (simp add: tieState_def persistedBest_def)
  have v: "scoreRef recordState = 5" "scoreRef tieState = 3"
    "localStorage recordState = Some 3" "localStorage tieState = Some 3"
    by (simp_all add: recordState_def tieState_def)
  have same: "tickObstacles halfDraws recordState = tickObstacles halfDraws crashState"
    "tickObstacles halfDraws tieState = tickObstacles halfDraws crashState"
    "playerRef recordState = playerRef crashState" "playerRef tieState = playerRef crashState"
    by (simp_all add: tickObstacles_def tickSpeed_def recordState_def tieState_def)
  have hit: "collisionLoop (playerRef crashState) (fst (tickObstacles halfDraws crashState))"
    unfolding crash_obstacles using crash_hit by simp
  have g1: "gameStateRef (gameLoop 16 halfDraws recordState) = GAMEOVER"
    using gameLoop_collision [OF r1, of halfDraws 16] hit by (simp only: same)
  have g2: "gameStateRef (gameLoop 16 halfDraws tieState) = GAMEOVER"
    using gameLoop_collision [OF t1, of halfDraws 16] hit by (simp only: same)
  have n: "\<not> (\<exists>time draws. GarageClick = Frame time draws)"
    by simp
  from best_score_update [OF r1 r2, of "[]" None 16 halfDraws GarageClick recordState]
    best_score_update [OF t1 t2, of "[]" None 16 halfDraws GarageClick tieState]
    r1 r2 t1 t2 v g1 g2 n
  show ?thesis
    by (simp add: persistedBest_def)
qed

section \<open>Lane\<close>

lemma lane_movePlayer:
  "obj_lane (playerRef (movePlayer dir s)) = max 0 (min 2 (obj_lane (playerRef s) + dir))"
  by (simp add: movePlayer_def Let_def)

lemma lane_startGame: "obj_lane (playerRef (startGame now s)) = 1"
  by (simp add: startGame_def Let_def)

lemma lane_handle:
  "obj_lane (playerRef (handle e s)) \<in> {0, 1, 2} \<or>
   obj_lane (playerRef (handle e s)) = obj_lane (playerRef s)"
proof (cases e)
  case (KeyDown key)
  then show ?thesis
    by (auto simp: handleKeyDown_def lane_movePlayer)
next
  case (StartClick now)
  then show ?thesis by (simp add: lane_startGame)
next
  case (Frame time draws)
  then show ?thesis by (simp add: gameLoop_playerRef)
qed (simp_all add: handleTrackSelect_def handleGarageClick_def handleBackToStart_def
      handleCustomizationChange_def Let_def)

lemma lane_run:
  "obj_lane (playerRef s) \<in> {0, 1, 2} \<Longrightarrow> obj_lane (playerRef (run es s)) \<in> {0, 1, 2}"
proof (induction es arbitrary: s)
  case Nil
  then show ?case by simp
next
  case (Cons e es)
  from lane_handle [of e s] Cons.prems have "obj_lane (playerRef (handle e s)) \<in> {0, 1, 2}"
    by auto
  then have "obj_lane (playerRef (run es (handle e s))) \<in> {0, 1, 2}"
    by (rule Cons.IH)
  then show ?case by simp
qed

lemma lane_mount: "obj_lane (playerRef (mount saved)) = 1"
  by (simp add: mount_def loadHighScore_def initialApp_def split: option.splits)

text \<open>
  Claim C7. In every state reachable from mounting the component the player's lane is
  0, 1 or 2. \<open>movePlayer\<close> adds the direction and clamps the sum to \<open>[0, 2]\<close>; the key
  handler calls it with \<open>-1\<close> or \<open>+1\<close> only; \<open>startGame\<close> sets the lane to 1; the frame
  callback, \<open>gameOver\<close> and the click handlers leave the lane as it is.
\<close>

theorem lane_in_range:
  "obj_lane (playerRef (run es (mount saved))) \<in> {0, 1, 2} \<and>
   obj_lane (playerRef (movePlayer dir s)) = max 0 (min 2 (obj_lane (playerRef s) + dir)) \<and>
   obj_lane (playerRef (handleKeyDown key s)) \<in>
     {obj_lane (playerRef s),
      max 0 (min 2 (obj_lane (playerRef s) + (- 1))),
      max 0 (min 2 (obj_lane (playerRef s) + 1))} \<and>
   obj_lane (playerRef (startGame now s)) = 1 \<and>
   obj_lane (playerRef (gameLoop time draws s)) = obj_lane (playerRef s) \<and>
   obj_lane (playerRef (gameOver s)) = obj_lane (playerRef s) \<and>
   obj_lane (playerRef (handleTrackSelect track s)) = obj_lane (playerRef s) \<and>
   obj_lane (playerRef (handleGarageClick s)) = obj_lane (playerRef s) \<and>
   obj_lane (playerRef (handleBackToStart s)) = obj_lane (playerRef s) \<and>
   obj_lane (playerRef (handleCustomizationChange update s)) = obj_lane (playerRef s)"
  using lane_run [of "mount saved" es]
  by (simp add: lane_mount lane_movePlayer lane_startGame gameLoop_playerRef gameOver_fields
      handleKeyDown_def handleTrackSelect_def handleGarageClick_def handleBackToStart_def
      handleCustomizationChange_def Let_def)

section \<open>The timestamp argument\<close>

lemma gameLoop_lastTimeRef:
  "lastTimeRef (gameLoop time draws s) = (if gameStateRef s = PLAYING then time else lastTimeRef s)"
  by (simp add: gameLoop_def Let_def gameOver_fields case_prod_beta)

lemma gameLoop_forget_time:
  "(gameLoop time draws (s\<lparr>lastTimeRef := a\<rparr>))\<lparr>lastTimeRef := c\<rparr> =
   (gameLoop 0 draws s)\<lparr>lastTimeRef := c\<rparr>"
  by (simp add: gameLoop_def Let_def gameOver_def case_prod_beta)

text \<open>
  Claim C10, as stated, at a concrete state: two frames from the same running state
  with the same draws and different timestamps end in different states, because the
  frame stores its timestamp in \<open>lastTimeRef\<close>.
\<close>

theorem timestamp_is_recorded:
  "gameStateRef playingState = PLAYING \<and>
   gameLoop 0 halfDraws playingState \<noteq> gameLoop 16 halfDraws playingState"
proof -
  have "lastTimeRef (gameLoop 0 halfDraws playingState) \<noteq>
        lastTimeRef (gameLoop 16 halfDraws playingState)"
    by (simp add: gameLoop_lastTimeRef playing_phase)
  then have "gameLoop 0 halfDraws playingState \<noteq> gameLoop 16 halfDraws playingState"
    by auto
  with playing_phase show ?thesis by simp
qed

text \<open>
  Claim C10, amended. Two frames from the same state with the same draws and any two
  timestamps end in states that agree on every field except \<open>lastTimeRef\<close>, which holds
  the timestamp given (when the phase is \<open>PLAYING\<close>). The timestamp stored by an earlier
  frame does not reach any other field either: the difference computed from it is never
  used.
\<close>

theorem timestamp_independence:
  "(gameLoop t1 draws s)\<lparr>lastTimeRef := c\<rparr> = (gameLoop t2 draws s)\<lparr>lastTimeRef := c\<rparr> \<and>
   (gameLoop t1 draws (s\<lparr>lastTimeRef := a\<rparr>))\<lparr>lastTimeRef := c\<rparr> =
     (gameLoop t2 draws (s\<lparr>lastTimeRef := b\<rparr>))\<lparr>lastTimeRef := c\<rparr> \<and>
   lastTimeRef (gameLoop t1 draws s) = (if gameStateRef s = PLAYING then t1 else lastTimeRef s)"
proof -
  have "(gameLoop t1 draws (s\<lparr>lastTimeRef := lastTimeRef s\<rparr>))\<lparr>lastTimeRef := c\<rparr> =
        (gameLoop t2 draws (s\<lparr>lastTimeRef := lastTimeRef s\<rparr>))\<lparr>lastTimeRef := c\<rparr>"
    by (simp only: gameLoop_forget_time)
  then have one: "(gameLoop t1 draws s)\<lparr>lastTimeRef := c\<rparr> = (gameLoop t2 draws s)\<lparr>lastTimeRef := c\<rparr>"
    by simp
  have two: "(gameLoop t1 draws (s\<lparr>lastTimeRef := a\<rparr>))\<lparr>lastTimeRef := c\<rparr> =
     (gameLoop t2 draws (s\<lparr>lastTimeRef := b\<rparr>))\<lparr>lastTimeRef := c\<rparr>"
    by (simp only: gameLoop_forget_time)
  from one two gameLoop_lastTimeRef [of t1 draws s] show ?thesis
    by (intro conjI)
qed

section \<open>Eviction is final\<close>

lemma top_on_screen: "- OBSTACLE_HEIGHT < CANVAS_HEIGHT" "- 200 < CANVAS_HEIGHT"
  by (simp_all add: OBSTACLE_HEIGHT_def CANVAS_HEIGHT_def)

lemma tickObstacles_on_screen:
  "ob \<in> set (fst (tickObstacles draws s)) \<Longrightarrow> obj_y ob < CANVAS_HEIGHT"
  using tickObstacles_set(1) [where draws = draws and s = s] top_on_screen by fastforce

lemma tickLandmarks_on_screen:
  "lm \<in> set (fst (tickLandmarks draws s)) \<Longrightarrow> lm_y lm < CANVAS_HEIGHT"
  using tickLandmarks_set(1) [where draws = draws and s = s] top_on_screen by fastforce

lemma handle_collections:
  "(\<exists>time draws. e = Frame time draws \<and> gameStateRef s = PLAYING) \<or>
   set (obstaclesRef (handle e s)) \<subseteq> set (obstaclesRef s) \<and>
   set (landmarksRef (handle e s)) \<subseteq> set (landmarksRef s)"
proof (cases e)
  case (Frame time draws)
  then show ?thesis
    by (cases "gameStateRef s = PLAYING") (simp_all add: gameLoop_not_playing)
qed (simp_all add: handleKeyDown_def movePlayer_def Let_def startGame_def
      handleTrackSelect_def handleGarageClick_def handleBackToStart_def
      handleCustomizationChange_def)

lemma on_screen_handle:
  assumes "\<forall>ob \<in> set (obstaclesRef s). obj_y ob < CANVAS_HEIGHT"
    and "\<forall>lm \<in> set (landmarksRef s). lm_y lm < CANVAS_HEIGHT"
  shows "(\<forall>ob \<in> set (obstaclesRef (handle e s)). obj_y ob < CANVAS_HEIGHT) \<and>
         (\<forall>lm \<in> set (landmarksRef (handle e s)). lm_y lm < CANVAS_HEIGHT)"
  using handle_collections [of e s]
proof
  assume "\<exists>time draws. e = Frame time draws \<and> gameStateRef s = PLAYING"
  then obtain time draws where e: "e = Frame time draws" and p: "gameStateRef s = PLAYING"
    by blast
  show ?thesis
    unfolding e handle.simps gameLoop_obstaclesRef [OF p] gameLoop_landmarksRef [OF p]
    using tickObstacles_on_screen tickLandmarks_on_screen by blast
next
  assume "set (obstaclesRef (handle e s)) \<subseteq> set (obstaclesRef s) \<and>
          set (landmarksRef (handle e s)) \<subseteq> set (landmarksRef s)"
  with assms show ?thesis by blast
qed

lemma on_screen_run:
  assumes "\<forall>ob \<in> set (obstaclesRef s). obj_y ob < CANVAS_HEIGHT"
    and "\<forall>lm \<in> set (landmarksRef s). lm_y lm < CANVAS_HEIGHT"
  shows "(\<forall>ob \<in> set (obstaclesRef (run es s)). obj_y ob < CANVAS_HEIGHT) \<and>
         (\<forall>lm \<in> set (landmarksRef (run es s)). lm_y lm < CANVAS_HEIGHT)"
  using assms
proof (induction es arbitrary: s)
  case Nil
  then show ?case by simp
next
  case (Cons e es)
  from on_screen_handle [OF Cons.prems, of e] Cons.IH [of "handle e s"]
  show ?case by simp
qed

lemma on_screen_reachable:
  "(\<forall>ob \<in> set (obstaclesRef (run es (mount saved))). obj_y ob < CANVAS_HEIGHT) \<and>
   (\<forall>lm \<in> set (landmarksRef (run es (mount saved))). lm_y lm < CANVAS_HEIGHT)"
  by (rule on_screen_run)
    (simp_all add: mount_def loadHighScore_def initialApp_def split: option.splits)

lemma fst_spawnLandmarks:
  "fst (spawnLandmarks track draws k lms) = lms \<or>
   fst (spawnLandmarks track draws k lms) =
     lms @ [newLandmark track (draws k) (draws (k + 1)) (draws (k + 2))] \<or>
   fst (spawnLandmarks track draws k lms) =
     lms @ [newLandmark track (draws (k + 1)) (draws (k + 1 + 1)) (draws (k + 1 + 2))]"
  by (simp add: spawnLandmarks_def numeral_2_eq_2 numeral_3_eq_3)

lemma fst_spawnObstacles_cases:
  "fst (spawnObstacles track draws k obs) = obs \<or>
   fst (spawnObstacles track draws k obs) =
     obs @ [newObstacle track (draws k) (draws (k + 1))] \<or>
   fst (spawnObstacles track draws k obs) =
     obs @ [newObstacle track (draws (k + 1)) (draws (k + 1 + 1))]"
  by (simp add: spawnObstacles_def numeral_2_eq_2)

lemma snd_spawnObstacles: "snd (spawnObstacles track draws 0 obs) \<in> {0, 1, 2, 3}"
  by (simp add: spawnObstacles_def)

lemma tick_obstacles_exact:
  assumes "gameStateRef s = PLAYING"
  shows "\<exists>fresh. obstaclesRef (gameLoop time draws s) =
           filter (\<lambda>ob. obj_y ob < CANVAS_HEIGHT)
             (map (\<lambda>ob. ob\<lparr>obj_y := obj_y ob + speedRef (gameLoop time draws s)\<rparr>)
               (obstaclesRef s)) @ fresh \<and>
           (fresh = [] \<or>
            (\<exists>i \<in> {0, 1}. fresh =
               [newObstacle (selectedTrackRef s) (draws i) (draws (i + 1))]))"
proof -
  let ?kept = "filter (\<lambda>ob. obj_y ob < CANVAS_HEIGHT)
      (map (\<lambda>ob. ob\<lparr>obj_y := obj_y ob + tickSpeed s\<rparr>) (obstaclesRef s))"
  have o: "obstaclesRef (gameLoop time draws s) =
      fst (spawnObstacles (selectedTrackRef s) draws 0 ?kept)"
    using assms
    by (simp add: gameLoop_obstaclesRef tickObstacles_def removeOffscreenObstacles_def
        moveObstacles_def)
  from fst_spawnObstacles_cases [of "selectedTrackRef s" draws 0 ?kept]
  consider "obstaclesRef (gameLoop time draws s) = ?kept @ []"
    | "obstaclesRef (gameLoop time draws s) =
        ?kept @ [newObstacle (selectedTrackRef s) (draws 0) (draws (0 + 1))]"
    | "obstaclesRef (gameLoop time draws s) =
        ?kept @ [newObstacle (selectedTrackRef s) (draws (0 + 1)) (draws (0 + 1 + 1))]"
    unfolding o by (elim disjE) (simp_all only: append_Nil2)
  then show ?thesis
  proof cases
    case 1
    then show ?thesis
      unfolding gameLoop_speedRef [OF assms] by blast
  next
    case 2
    moreover have "(0::nat) \<in> {0, 1}"
      by simp
    ultimately show ?thesis
      unfolding gameLoop_speedRef [OF assms] by blast
  next
    case 3
    moreover have "(0::nat) + 1 \<in> {0, 1}"
      by simp
    ultimately show ?thesis
      unfolding gameLoop_speedRef [OF assms] by blast
  qed
qed

lemma tick_landmarks_exact:
  assumes "gameStateRef s = PLAYING"
  shows "\<exists>fresh. landmarksRef (gameLoop time draws s) =
           filter (\<lambda>lm. lm_y lm < CANVAS_HEIGHT)
             (map (\<lambda>lm. lm\<lparr>lm_y := lm_y lm + speedRef (gameLoop time draws s)\<rparr>)
               (landmarksRef s)) @ fresh \<and>
           (fresh = [] \<or>
            (\<exists>i \<in> {0, 1, 2, 3, 4}. fresh =
               [newLandmark (selectedTrackRef s) (draws i) (draws (i + 1)) (draws (i + 2))]))"
proof -
  let ?kept = "filter (\<lambda>lm. lm_y lm < CANVAS_HEIGHT)
      (map (\<lambda>lm. lm\<lparr>lm_y := lm_y lm + tickSpeed s\<rparr>) (landmarksRef s))"
  let ?k = "snd (tickObstacles draws s)"
  have k: "?k \<in> {0, 1, 2, 3}"
    unfolding tickObstacles_def by (rule snd_spawnObstacles)
  have l: "landmarksRef (gameLoop time draws s) =
      fst (spawnLandmarks (selectedTrackRef s) draws ?k ?kept)"
    using assms
    by (simp add: gameLoop_landmarksRef tickLandmarks_def removeOffscreenLandmarks_def
        moveLandmarks_def)
  from fst_spawnLandmarks [of "selectedTrackRef s" draws ?k ?kept]
  consider "landmarksRef (gameLoop time draws s) = ?kept @ []"
    | "landmarksRef (gameLoop time draws s) =
        ?kept @ [newLandmark (selectedTrackRef s) (draws ?k) (draws (?k + 1)) (draws (?k + 2))]"
    | "landmarksRef (gameLoop time draws s) =
        ?kept @ [newLandmark (selectedTrackRef s) (draws (?k + 1)) (draws (?k + 1 + 1))
          (draws (?k + 1 + 2))]"
    unfolding l by (elim disjE) (simp_all only: append_Nil2)
  then show ?thesis
  proof cases
    case 1
    then show ?thesis
      unfolding gameLoop_speedRef [OF assms] by blast
  next
    case 2
    moreover from k have "?k \<in> {0, 1, 2, 3, 4}"
      by auto
    ultimately show ?thesis
      unfolding gameLoop_speedRef [OF assms] by blast
  next
    case 3
    moreover from k have "?k + 1 \<in> {0, 1, 2, 3, 4}"
      by auto
    ultimately show ?thesis
      unfolding gameLoop_speedRef [OF assms] by blast
  qed
qed

text \<open>
  Claim C9. No state reachable from mounting the component holds an obstacle or a
  landmark at or beyond the bottom boundary: an entity that has been evicted is in no
  later collection. The collection after a running frame is exactly the elements of
  the collection before it, moved down by the speed, that are still above the
  boundary, in their order, followed by at most one new entity, which is the one this
  frame builds from its draws (\<open>newObstacle\<close>, \<open>newLandmark\<close>). So every element after
  the frame is either that new entity or an element that was present before and was not
  evicted; an evicted element is not put back. Every other event only keeps or empties
  the collections.
\<close>

theorem evicted_never_return:
  "(\<forall>ob \<in> set (obstaclesRef (run es (mount saved))). obj_y ob < CANVAS_HEIGHT) \<and>
   (\<forall>lm \<in> set (landmarksRef (run es (mount saved))). lm_y lm < CANVAS_HEIGHT) \<and>
   (gameStateRef s = PLAYING \<longrightarrow>
      (\<exists>fresh. obstaclesRef (gameLoop time draws s) =
           filter (\<lambda>ob. obj_y ob < CANVAS_HEIGHT)
             (map (\<lambda>ob. ob\<lparr>obj_y := obj_y ob + speedRef (gameLoop time draws s)\<rparr>)
               (obstaclesRef s)) @ fresh \<and>
           (fresh = [] \<or>
            (\<exists>i \<in> {0, 1}. fresh =
               [newObstacle (selectedTrackRef s) (draws i) (draws (i + 1))]))) \<and>
      (\<exists>fresh. landmarksRef (gameLoop time draws s) =
           filter (\<lambda>lm. lm_y lm < CANVAS_HEIGHT)
             (map (\<lambda>lm. lm\<lparr>lm_y := lm_y lm + speedRef (gameLoop time draws s)\<rparr>)
               (landmarksRef s)) @ fresh \<and>
           (fresh = [] \<or>
            (\<exists>i \<in> {0, 1, 2, 3, 4}. fresh =
               [newLandmark (selectedTrackRef s) (draws i) (draws (i + 1)) (draws (i + 2))]))) \<and>
      (\<forall>ob \<in> set (obstaclesRef (gameLoop time draws s)).
          (\<exists>i \<in> {0, 1}. ob = newObstacle (selectedTrackRef s) (draws i) (draws (i + 1))) \<or>
          (\<exists>ob0 \<in> set (obstaclesRef s).
             ob = ob0\<lparr>obj_y := obj_y ob0 + speedRef (gameLoop time draws s)\<rparr> \<and>
             obj_y ob < CANVAS_HEIGHT)) \<and>
      (\<forall>lm \<in> set (landmarksRef (gameLoop time draws s)).
          (\<exists>i \<in> {0, 1, 2, 3, 4}.
             lm = newLandmark (selectedTrackRef s) (draws i) (draws (i + 1)) (draws (i + 2))) \<or>
          (\<exists>lm0 \<in> set (landmarksRef s).
             lm = lm0\<lparr>lm_y := lm_y lm0 + speedRef (gameLoop time draws s)\<rparr> \<and>
             lm_y lm < CANVAS_HEIGHT))) \<and>
   ((\<exists>time draws. e = Frame time draws \<and> gameStateRef s = PLAYING) \<or>
    set (obstaclesRef (handle e s)) \<subseteq> set (obstaclesRef s) \<and>
    set (landmarksRef (handle e s)) \<subseteq> set (landmarksRef s))"
proof -
  have frame: "(\<exists>fresh. obstaclesRef (gameLoop time draws s) =
           filter (\<lambda>ob. obj_y ob < CANVAS_HEIGHT)
             (map (\<lambda>ob. ob\<lparr>obj_y := obj_y ob + speedRef (gameLoop time draws s)\<rparr>)
               (obstaclesRef s)) @ fresh \<and>
           (fresh = [] \<or>
            (\<exists>i \<in> {0, 1}. fresh =
               [newObstacle (selectedTrackRef s) (draws i) (draws (i + 1))]))) \<and>
      (\<exists>fresh. landmarksRef (gameLoop time draws s) =
           filter (\<lambda>lm. lm_y lm < CANVAS_HEIGHT)
             (map (\<lambda>lm. lm\<lparr>lm_y := lm_y lm + speedRef (gameLoop time draws s)\<rparr>)
               (landmarksRef s)) @ fresh \<and>
           (fresh = [] \<or>
            (\<exists>i \<in> {0, 1, 2, 3, 4}. fresh =
               [newLandmark (selectedTrackRef s) (draws i) (draws (i + 1)) (draws (i + 2))]))) \<and>
      (\<forall>ob \<in> set (obstaclesRef (gameLoop time draws s)).
          (\<exists>i \<in> {0, 1}. ob = newObstacle (selectedTrackRef s) (draws i) (draws (i + 1))) \<or>
          (\<exists>ob0 \<in> set (obstaclesRef s).
             ob = ob0\<lparr>obj_y := obj_y ob0 + speedRef (gameLoop time draws s)\<rparr> \<and>
             obj_y ob < CANVAS_HEIGHT)) \<and>
      (\<forall>lm \<in> set (landmarksRef (gameLoop time draws s)).
          (\<exists>i \<in> {0, 1, 2, 3, 4}.
             lm = newLandmark (selectedTrackRef s) (draws i) (draws (i + 1)) (draws (i + 2))) \<or>
          (\<exists>lm0 \<in> set (landmarksRef s).
             lm = lm0\<lparr>lm_y := lm_y lm0 + speedRef (gameLoop time draws s)\<rparr> \<and>
             lm_y lm < CANVAS_HEIGHT))"
    if p: "gameStateRef s = PLAYING"
  proof -
    from tick_obstacles_exact [OF p, of time draws] obtain fresh where
      o: "obstaclesRef (gameLoop time draws s) =
           filter (\<lambda>ob. obj_y ob < CANVAS_HEIGHT)
             (map (\<lambda>ob. ob\<lparr>obj_y := obj_y ob + speedRef (gameLoop time draws s)\<rparr>)
               (obstaclesRef s)) @ fresh"
      and fo: "fresh = [] \<or>
            (\<exists>i \<in> {0, 1}. fresh =
               [newObstacle (selectedTrackRef s) (draws i) (draws (i + 1))])"
      by blast
    from tick_landmarks_exact [OF p, of time draws] obtain fresh' where
      l: "landmarksRef (gameLoop time draws s) =
           filter (\<lambda>lm. lm_y lm < CANVAS_HEIGHT)
             (map (\<lambda>lm. lm\<lparr>lm_y := lm_y lm + speedRef (gameLoop time draws s)\<rparr>)
               (landmarksRef s)) @ fresh'"
      and fl: "fresh' = [] \<or>
            (\<exists>i \<in> {0, 1, 2, 3, 4}. fresh' =
               [newLandmark (selectedTrackRef s) (draws i) (draws (i + 1)) (draws (i + 2))])"
      by blast
    have eo: "\<forall>ob \<in> set (obstaclesRef (gameLoop time draws s)).
          (\<exists>i \<in> {0, 1}. ob = newObstacle (selectedTrackRef s) (draws i) (draws (i + 1))) \<or>
          (\<exists>ob0 \<in> set (obstaclesRef s).
             ob = ob0\<lparr>obj_y := obj_y ob0 + speedRef (gameLoop time draws s)\<rparr> \<and>
             obj_y ob < CANVAS_HEIGHT)"
    proof
      fix ob
      assume "ob \<in> set (obstaclesRef (gameLoop time draws s))"
      then have "ob \<in> set fresh \<or>
          ob \<in> set (filter (\<lambda>ob. obj_y ob < CANVAS_HEIGHT)
             (map (\<lambda>ob. ob\<lparr>obj_y := obj_y ob + speedRef (gameLoop time draws s)\<rparr>)
               (obstaclesRef s)))"
        by (subst (asm) o) auto
      with fo show "(\<exists>i \<in> {0, 1}. ob = newObstacle (selectedTrackRef s) (draws i) (draws (i + 1))) \<or>
          (\<exists>ob0 \<in> set (obstaclesRef s).
             ob = ob0\<lparr>obj_y := obj_y ob0 + speedRef (gameLoop time draws s)\<rparr> \<and>
             obj_y ob < CANVAS_HEIGHT)"
        by auto
    qed
    have el: "\<forall>lm \<in> set (landmarksRef (gameLoop time draws s)).
          (\<exists>i \<in> {0, 1, 2, 3, 4}.
             lm = newLandmark (selectedTrackRef s) (draws i) (draws (i + 1)) (draws (i + 2))) \<or>
          (\<exists>lm0 \<in> set (landmarksRef s).
             lm = lm0\<lparr>lm_y := lm_y lm0 + speedRef (gameLoop time draws s)\<rparr> \<and>
             lm_y lm < CANVAS_HEIGHT)"
    proof
      fix lm
      assume "lm \<in> set (landmarksRef (gameLoop time draws s))"
      then have "lm \<in> set fresh' \<or>
          lm \<in> set (filter (\<lambda>lm. lm_y lm < CANVAS_HEIGHT)
             (map (\<lambda>lm. lm\<lparr>lm_y := lm_y lm + speedRef (gameLoop time draws s)\<rparr>)
               (landmarksRef s)))"
        by (subst (asm) l) auto
      with fl show "(\<exists>i \<in> {0, 1, 2, 3, 4}.
             lm = newLandmark (selectedTrackRef s) (draws i) (draws (i + 1)) (draws (i + 2))) \<or>
          (\<exists>lm0 \<in> set (landmarksRef s).
             lm = lm0\<lparr>lm_y := lm_y lm0 + speedRef (gameLoop time draws s)\<rparr> \<and>
             lm_y lm < CANVAS_HEIGHT)"
        by auto
    qed
    from tick_obstacles_exact [OF p, of time draws] tick_landmarks_exact [OF p, of time draws]
      eo el
    show ?thesis
      by (intro conjI)
  qed
  from on_screen_reachable [of es saved] frame handle_collections [of e s] show ?thesis
    by (intro conjI impI) blast+
qed

theorem evicted_never_return_witness:
  "gameStateRef edgeState = PLAYING \<and>
   obstaclesRef edgeState = [obstacleAt 0 590, obstacleAt 0 540] \<and>
   speedRef (gameLoop 16 halfDraws edgeState) = 10 \<and>
   obstaclesRef (gameLoop 16 halfDraws edgeState) = [obstacleAt 0 550] \<and>
   obstacleAt 0 550 \<noteq> newObstacle (selectedTrackRef edgeState) (halfDraws 0) (halfDraws 1) \<and>
   obstacleAt 0 550 \<noteq> newObstacle (selectedTrackRef edgeState) (halfDraws 1) (halfDraws 2) \<and>
   (\<exists>ob0 \<in> set (obstaclesRef edgeState).
      obstacleAt 0 550 = ob0\<lparr>obj_y := obj_y ob0 + speedRef (gameLoop 16 halfDraws edgeState)\<rparr> \<and>
      obj_y (obstacleAt 0 550) < CANVAS_HEIGHT) \<and>
   obstaclesRef (run [StartClick 0, Frame 16 halfDraws] (mount None)) =
     [newObstacle (hd TRACKS) (1 / 2) (1 / 2)] \<and>
   obj_y (newObstacle (hd TRACKS) (1 / 2) (1 / 2)) < CANVAS_HEIGHT"
proof -
  note p = edge_phase
  have pre: "obstaclesRef edgeState = [obstacleAt 0 590, obstacleAt 0 540]"
    by (simp add: edgeState_def)
  note v = edge_speed_after and obs = edge_obstacles
  have n0: "obstacleAt 0 550 \<noteq>
      newObstacle (selectedTrackRef edgeState) (halfDraws 0) (halfDraws 1)"
    by (simp add: obstacleAt_def spawn_defs halfDraws_def edgeState_def playing_defs)
  have n1: "obstacleAt 0 550 \<noteq>
      newObstacle (selectedTrackRef edgeState) (halfDraws 1) (halfDraws 2)"
    by (simp add: obstacleAt_def spawn_defs halfDraws_def edgeState_def playing_defs)
  have first: "obstaclesRef (run [StartClick 0, Frame 16 halfDraws] (mount None)) =
      [newObstacle (hd TRACKS) (1 / 2) (1 / 2)]"
    unfolding run.simps handle.simps playingState_def [symmetric]
    by (rule first_frame_obstacles)
  note inst = evicted_never_return [of "[StartClick 0, Frame 16 halfDraws]" None edgeState
      16 halfDraws GarageClick]
  from inst p have "\<forall>ob \<in> set (obstaclesRef (gameLoop 16 halfDraws edgeState)).
          (\<exists>i \<in> {0, 1}. ob = newObstacle (selectedTrackRef edgeState) (halfDraws i)
             (halfDraws (i + 1))) \<or>
          (\<exists>ob0 \<in> set (obstaclesRef edgeState).
             ob = ob0\<lparr>obj_y := obj_y ob0 + speedRef (gameLoop 16 halfDraws edgeState)\<rparr> \<and>
             obj_y ob < CANVAS_HEIGHT)"
    by blast
  with obs n0 n1 have kept: "\<exists>ob0 \<in> set (obstaclesRef edgeState).
      obstacleAt 0 550 = ob0\<lparr>obj_y := obj_y ob0 + speedRef (gameLoop 16 halfDraws edgeState)\<rparr> \<and>
      obj_y (obstacleAt 0 550) < CANVAS_HEIGHT"
    by (simp add: numeral_2_eq_2)
  from inst have "\<forall>ob \<in> set (obstaclesRef (run [StartClick 0, Frame 16 halfDraws] (mount None))).
      obj_y ob < CANVAS_HEIGHT"
    by blast
  with first have fresh: "obj_y (newObstacle (hd TRACKS) (1 / 2) (1 / 2)) < CANVAS_HEIGHT"
    by simp
  from p pre v obs n0 n1 kept first fresh show ?thesis
    by (intro conjI)
qed

end
